theory Spec2Isabelle
  imports Main
begin

section \<open>Strings\<close>

text \<open>
  A Python \<open>str\<close> is modelled as a \<open>string\<close> whose characters are the code points
  0 to 255 (Latin-1).  On that range \<open>str.lower\<close> maps \<open>A\<close> to \<open>Z\<close> and the
  accented capitals 192 to 222 (without the multiplication sign 215) 32 positions up,
  and \<open>str.isspace\<close> holds for the code points 9 to 13, 28 to 32, 133 and 160.
\<close>

definition lower_char :: "char \<Rightarrow> char" where
  "lower_char c =
     (let n = (of_char c :: nat)
      in if (65 \<le> n \<and> n \<le> 90) \<or> (192 \<le> n \<and> n \<le> 222 \<and> n \<noteq> 215)
         then char_of (n + 32) else c)"

definition lower :: "string \<Rightarrow> string" where
  "lower s = map lower_char s"

definition isspace :: "char \<Rightarrow> bool" where
  "isspace c =
     (let n = (of_char c :: nat)
      in (9 \<le> n \<and> n \<le> 13) \<or> (28 \<le> n \<and> n \<le> 32) \<or> n = 133 \<or> n = 160)"

definition strip :: "string \<Rightarrow> string" where
  "strip s = rev (dropWhile isspace (rev (dropWhile isspace s)))"

definition startswith :: "string \<Rightarrow> string \<Rightarrow> bool" where
  "startswith s p = (take (length p) s = p)"

definition is_upper_char :: "char \<Rightarrow> bool" where
  "is_upper_char c =
     (let n = (of_char c :: nat)
      in (65 \<le> n \<and> n \<le> 90) \<or> (192 \<le> n \<and> n \<le> 222 \<and> n \<noteq> 215))"

section \<open>Exceptions\<close>

text \<open>
  Every raise of the source is a value \<open>Inl e\<close>.  The payload is what \<open>str(e)\<close>
  gives; for \<open>HTTPException\<close> it is the status code and the detail.
\<close>

datatype exn =
    HTTPException nat string
  | APIConnectionError string
  | ValidationError string
  | JSONDecodeError string
  | TypeError string
  | SQLAlchemyError string
  | Exception string

fun str_exn :: "exn \<Rightarrow> string" where
  "str_exn (HTTPException c d) = d"
| "str_exn (APIConnectionError m) = m"
| "str_exn (ValidationError m) = m"
| "str_exn (JSONDecodeError m) = m"
| "str_exn (TypeError m) = m"
| "str_exn (SQLAlchemyError m) = m"
| "str_exn (Exception m) = m"

section \<open>JSON values and persisted text\<close>

text \<open>
  \<open>json\<close> is what \<open>json.loads\<close> returns and \<open>json.dumps\<close> accepts (numbers are
  kept as integers; none occurs in a follow-up).  A dict is an association list in
  insertion order.

  A persisted \<open>follow_ups\<close> column is \<open>None\<close> (SQL NULL) or a text.  A text is
  described by what \<open>json.loads\<close> makes of it: the empty string, the encoding of a
  JSON value, or a text the decoder rejects (with the decoder's message).
\<close>

datatype json =
    JNull
  | JBool bool
  | JInt int
  | JStr string
  | JList "json list"
  | JDict "(string \<times> json) list"

datatype stored_text = EmptyStr | Encoded json | Malformed string

type_synonym column = "stored_text option"

definition json_dumps :: "json \<Rightarrow> stored_text" where
  "json_dumps v = Encoded v"

fun json_loads :: "stored_text \<Rightarrow> exn + json" where
  "json_loads EmptyStr = Inl (JSONDecodeError ''Expecting value'')"
| "json_loads (Encoded v) = Inr v"
| "json_loads (Malformed m) = Inl (JSONDecodeError m)"

text \<open>\<open>not follow_ups_str\<close>: true for \<open>None\<close> and for the empty string.\<close>

fun falsy :: "column \<Rightarrow> bool" where
  "falsy None = True"
| "falsy (Some EmptyStr) = True"
| "falsy (Some _) = False"

section \<open>Schemas (schemas.py) and rows (models.py)\<close>

text \<open>
  Field names carry the name of their class as a prefix: \<open>term\<close> is a keyword of
  Isabelle, and several classes share the names \<open>term\<close>, \<open>definition\<close> and
  \<open>follow_ups\<close>.
\<close>

record FollowUp =
  fu_term :: string
  fu_question :: string
  fu_definition :: string

record terminusAnswer =
  answer_term :: string
  answer_definition :: string
  answer_follow_ups :: "FollowUp list"

record CandidateterminusAnswer = terminusAnswer +
  answer_status :: string

record CandidateValidation =
  validation_term :: string
  validation_approve :: bool
  validation_reason :: string

record terminusEntryCreate =
  create_term :: string
  create_definition :: string

text \<open>\<open>confidence\<close> (a float that is only logged) is left out.\<close>

record DefinitionValidationResult =
  is_valid :: bool
  reasoning :: string

record TermCritique =
  critiqued_term :: string
  is_relevant :: bool
  critique_reason :: string

text \<open>
  The tables \<open>terminus\<close> and \<open>candidate_terminus\<close>: a table is the list of its
  rows, \<open>term\<close> is the primary key.
\<close>

record terminusEntry =
  entry_term :: string
  entry_definition :: string
  entry_follow_ups :: column

record CandidateterminusEntry = terminusEntry +
  entry_status :: string

type_synonym terminus_table = "terminusEntry list"
type_synonym candidate_table = "CandidateterminusEntry list"

section \<open>The ORM session\<close>

text \<open>\<open>session.query(E).filter_by(term=k).first()\<close>\<close>

definition query_first :: "'a terminusEntry_scheme list \<Rightarrow> string \<Rightarrow> 'a terminusEntry_scheme option" where
  "query_first tbl k = find (\<lambda>e. entry_term e = k) tbl"

text \<open>\<open>session.query(session.query(E).filter_by(term=k).exists()).scalar()\<close>\<close>

definition query_exists :: "'a terminusEntry_scheme list \<Rightarrow> string \<Rightarrow> bool" where
  "query_exists tbl k = list_ex (\<lambda>e. entry_term e = k) tbl"

text \<open>\<open>session.merge(entry); session.commit()\<close>: update the row with the entry's
  primary key, insert the entry when there is none.\<close>

definition session_merge :: "'a terminusEntry_scheme \<Rightarrow> 'a terminusEntry_scheme list \<Rightarrow> 'a terminusEntry_scheme list" where
  "session_merge e tbl =
     (if list_ex (\<lambda>r. entry_term r = entry_term e) tbl
      then map (\<lambda>r. if entry_term r = entry_term e then e else r) tbl
      else tbl @ [e])"

text \<open>\<open>session.delete(entry); session.commit()\<close>\<close>

definition session_delete :: "'a terminusEntry_scheme \<Rightarrow> 'a terminusEntry_scheme list \<Rightarrow> 'a terminusEntry_scheme list" where
  "session_delete e tbl = filter (\<lambda>r. entry_term r \<noteq> entry_term e) tbl"

section \<open>Follow-up serialization (both services)\<close>

text \<open>An element of the \<open>follow_ups\<close> argument of \<open>save\<close>: a \<open>FollowUp\<close> or a dict.\<close>

datatype follow_up_arg = Model FollowUp | Dict "(string \<times> json) list"

text \<open>\<open>fu.model_dump()\<close> (and the older \<open>fu.dict()\<close>)\<close>

definition model_dump :: "FollowUp \<Rightarrow> (string \<times> json) list" where
  "model_dump fu =
     [(''term'', JStr (fu_term fu)),
      (''question'', JStr (fu_question fu)),
      (''definition'', JStr (fu_definition fu))]"

text \<open>
  \<open>FollowUp(**fu)\<close>: \<open>fu\<close> must be a dict; the three fields are required and must be
  strings; other keys are ignored.
\<close>

fun FollowUp_of :: "json \<Rightarrow> exn + FollowUp" where
  "FollowUp_of (JDict kvs) =
     (case (map_of kvs ''term'', map_of kvs ''question'', map_of kvs ''definition'') of
        (Some (JStr t), Some (JStr q), Some (JStr d)) \<Rightarrow>
          Inr \<lparr>fu_term = t, fu_question = q, fu_definition = d\<rparr>
      | _ \<Rightarrow> Inl (ValidationError ''validation error for FollowUp''))"
| "FollowUp_of _ = Inl (TypeError ''argument after ** must be a mapping'')"

text \<open>The list comprehension \<open>[FollowUp(**fu) for fu in data]\<close> over a list.\<close>

fun FollowUp_list :: "json list \<Rightarrow> exn + FollowUp list" where
  "FollowUp_list [] = Inr []"
| "FollowUp_list (x # xs) =
     (case FollowUp_of x of
        Inl e \<Rightarrow> Inl e
      | Inr fu \<Rightarrow> (case FollowUp_list xs of Inl e \<Rightarrow> Inl e | Inr fus \<Rightarrow> Inr (fu # fus)))"

text \<open>
  The comprehension over any decoded value: a list is iterated; a dict yields its
  keys and a string its characters (no element is a mapping, so only the empty ones
  pass); nothing else is iterable.
\<close>

fun FollowUp_comprehension :: "json \<Rightarrow> exn + FollowUp list" where
  "FollowUp_comprehension (JList xs) = FollowUp_list xs"
| "FollowUp_comprehension (JDict kvs) =
     (if kvs = [] then Inr [] else Inl (TypeError ''argument after ** must be a mapping''))"
| "FollowUp_comprehension (JStr s) =
     (if s = [] then Inr [] else Inl (TypeError ''argument after ** must be a mapping''))"
| "FollowUp_comprehension _ = Inl (TypeError ''object is not iterable'')"

fun serialize_item :: "follow_up_arg \<Rightarrow> json" where
  "serialize_item (Model fu) = JDict (model_dump fu)"
| "serialize_item (Dict d) = JDict d"

text \<open>\<open>terminusService._serialize_follow_ups\<close>\<close>

definition terminus_serialize_follow_ups :: "follow_up_arg list \<Rightarrow> column" where
  "terminus_serialize_follow_ups follow_ups = Some (json_dumps (JList (map serialize_item follow_ups)))"

text \<open>\<open>terminusService._deserialize_follow_ups\<close>\<close>

definition terminus_deserialize_follow_ups :: "column \<Rightarrow> exn + FollowUp list" where
  "terminus_deserialize_follow_ups follow_ups_str =
     (if falsy follow_ups_str then Inr []
      else case json_loads (the follow_ups_str) of
             Inl e \<Rightarrow> Inl e
           | Inr data \<Rightarrow> FollowUp_comprehension data)"

text \<open>\<open>CandidateterminusService._serialize_follow_ups\<close>\<close>

definition candidate_serialize_follow_ups :: "follow_up_arg list \<Rightarrow> column" where
  "candidate_serialize_follow_ups follow_ups = Some (json_dumps (JList (map serialize_item follow_ups)))"

text \<open>\<open>CandidateterminusService._deserialize_follow_ups\<close>\<close>

definition candidate_deserialize_follow_ups :: "column \<Rightarrow> exn + FollowUp list" where
  "candidate_deserialize_follow_ups follow_ups_str =
     (if falsy follow_ups_str then Inr []
      else case json_loads (the follow_ups_str) of
             Inl e \<Rightarrow> Inl e
           | Inr data \<Rightarrow> FollowUp_comprehension data)"

section \<open>terminusService (services/terminus\_service.py)\<close>

definition terminus_get :: "terminus_table \<Rightarrow> string \<Rightarrow> terminusEntry option" where
  "terminus_get tbl t = query_first tbl (lower t)"

definition terminus_get_as_pydantic :: "terminus_table \<Rightarrow> string \<Rightarrow> exn + terminusAnswer option" where
  "terminus_get_as_pydantic tbl t =
     (case query_first tbl (lower t) of
        None \<Rightarrow> Inr None
      | Some db_obj \<Rightarrow>
          (case terminus_deserialize_follow_ups (entry_follow_ups db_obj) of
             Inl e \<Rightarrow> Inl e
           | Inr follow_ups \<Rightarrow>
               Inr (Some \<lparr>answer_term = entry_term db_obj,
                          answer_definition = entry_definition db_obj,
                          answer_follow_ups = follow_ups\<rparr>)))"

definition terminus_save :: "terminus_table \<Rightarrow> string \<Rightarrow> string \<Rightarrow> follow_up_arg list \<Rightarrow> terminus_table" where
  "terminus_save tbl t d follow_ups =
     session_merge \<lparr>entry_term = lower t, entry_definition = d,
                    entry_follow_ups = terminus_serialize_follow_ups follow_ups\<rparr> tbl"

definition terminus_delete :: "terminus_table \<Rightarrow> string \<Rightarrow> bool \<times> terminus_table" where
  "terminus_delete tbl t =
     (case query_first tbl (lower t) of
        None \<Rightarrow> (False, tbl)
      | Some e \<Rightarrow> (True, session_delete e tbl))"

definition terminus_exists :: "terminus_table \<Rightarrow> string \<Rightarrow> bool" where
  "terminus_exists tbl t = query_exists tbl (lower t)"

section \<open>CandidateterminusService (services/candidate\_terminus\_service.py)\<close>

definition candidate_get :: "candidate_table \<Rightarrow> string \<Rightarrow> CandidateterminusEntry option" where
  "candidate_get tbl t = query_first tbl (lower t)"

definition candidate_get_as_pydantic :: "candidate_table \<Rightarrow> string \<Rightarrow> exn + CandidateterminusAnswer option" where
  "candidate_get_as_pydantic tbl t =
     (case query_first tbl (lower t) of
        None \<Rightarrow> Inr None
      | Some db_obj \<Rightarrow>
          (case candidate_deserialize_follow_ups (entry_follow_ups db_obj) of
             Inl e \<Rightarrow> Inl e
           | Inr follow_ups_list \<Rightarrow>
               Inr (Some \<lparr>answer_term = entry_term db_obj,
                          answer_definition = entry_definition db_obj,
                          answer_follow_ups = follow_ups_list,
                          answer_status = entry_status db_obj\<rparr>)))"

definition candidate_save :: "candidate_table \<Rightarrow> string \<Rightarrow> string \<Rightarrow> follow_up_arg list \<Rightarrow> string \<Rightarrow> candidate_table" where
  "candidate_save tbl t d follow_ups status =
     session_merge \<lparr>entry_term = lower t, entry_definition = d,
                    entry_follow_ups = candidate_serialize_follow_ups follow_ups,
                    entry_status = status\<rparr> tbl"

definition candidate_delete :: "candidate_table \<Rightarrow> string \<Rightarrow> bool \<times> candidate_table" where
  "candidate_delete tbl t =
     (case query_first tbl (lower t) of
        None \<Rightarrow> (False, tbl)
      | Some e \<Rightarrow> (True, session_delete e tbl))"

definition candidate_exists :: "candidate_table \<Rightarrow> string \<Rightarrow> bool" where
  "candidate_exists tbl t = query_exists tbl (lower t)"

text \<open>\<open>reject\<close>: the attribute \<open>status\<close> of the row found is assigned and committed.\<close>

definition candidate_reject :: "candidate_table \<Rightarrow> string \<Rightarrow> string \<Rightarrow> candidate_table" where
  "candidate_reject tbl t reason =
     (case query_first tbl (lower t) of
        None \<Rightarrow> tbl
      | Some entry \<Rightarrow> session_merge (entry\<lparr>entry_status := ''rejected: '' @ reason\<rparr>) tbl)"

section \<open>The collaborators and the state\<close>

text \<open>
  What a router or the background task does to the outside is recorded in a trace: the
  calls of the collaborating services (Wikipedia lookup, definition validation,
  follow-up generation, term extraction) and the writes to the two tables.
\<close>

datatype event =
    WikipediaQuery string
  | ValidateDefinition string string
  | GenerateFollowups string string
  | ExtractTerms string
  | TerminusSave string string "follow_up_arg list"
  | CandidateSave string string "follow_up_arg list" string
  | CandidateDelete string
  | CandidateReject string string

record world =
  terminus :: terminus_table
  candidate :: candidate_table
  trace :: "event list"

record ExtractedTerm =
  extracted_term :: string

record ExtractedTerms =
  terms :: "ExtractedTerm list"

text \<open>
  The environment fixes what the outside answers.  \<open>wikipedia\<close> is the outcome of
  \<open>WikipediaService.query\<close>.  An LLM client is the outcome of
  \<open>client.chat.completions.create\<close> for the request built from the arguments: it
  raises, or returns a response (\<open>None\<close> is Python's \<open>None\<close>); the critique client
  is asked once per candidate term, the calls are numbered.  \<open>commit\<close> tells for every
  write whether \<open>session.commit()\<close> raises; a write whose commit raises changes no
  table.
\<close>

record env =
  wikipedia :: "string \<Rightarrow> exn + string"
  validation_client :: "string \<Rightarrow> string \<Rightarrow> exn + DefinitionValidationResult option"
  followup_client :: "string \<Rightarrow> string \<Rightarrow> exn + terminusAnswer option"
  extraction_client :: "string \<Rightarrow> exn + ExtractedTerms option"
  critique_client :: "nat \<Rightarrow> string \<Rightarrow> exn + TermCritique option"
  commit :: "event \<Rightarrow> exn option"

definition log_event :: "event \<Rightarrow> world \<Rightarrow> world" where
  "log_event ev w = w\<lparr>trace := trace w @ [ev]\<rparr>"

definition do_terminus_save :: "env \<Rightarrow> string \<Rightarrow> string \<Rightarrow> follow_up_arg list \<Rightarrow> world \<Rightarrow> exn option \<times> world" where
  "do_terminus_save env t d follow_ups w =
     (case commit env (TerminusSave t d follow_ups) of
        Some e \<Rightarrow> (Some e, log_event (TerminusSave t d follow_ups) w)
      | None \<Rightarrow>
          (None, log_event (TerminusSave t d follow_ups)
                   (w\<lparr>terminus := terminus_save (terminus w) t d follow_ups\<rparr>)))"

definition do_candidate_save :: "env \<Rightarrow> string \<Rightarrow> string \<Rightarrow> follow_up_arg list \<Rightarrow> string \<Rightarrow> world \<Rightarrow> exn option \<times> world" where
  "do_candidate_save env t d follow_ups status w =
     (case commit env (CandidateSave t d follow_ups status) of
        Some e \<Rightarrow> (Some e, log_event (CandidateSave t d follow_ups status) w)
      | None \<Rightarrow>
          (None, log_event (CandidateSave t d follow_ups status)
                   (w\<lparr>candidate := candidate_save (candidate w) t d follow_ups status\<rparr>)))"

text \<open>\<open>delete\<close> and \<open>reject\<close> commit only when the row is found.\<close>

definition do_candidate_delete :: "env \<Rightarrow> string \<Rightarrow> world \<Rightarrow> (exn + bool) \<times> world" where
  "do_candidate_delete env t w =
     (case candidate_get (candidate w) t of
        None \<Rightarrow> (Inr False, w)
      | Some e \<Rightarrow>
          (case commit env (CandidateDelete t) of
             Some x \<Rightarrow> (Inl x, log_event (CandidateDelete t) w)
           | None \<Rightarrow>
               (Inr True, log_event (CandidateDelete t)
                            (w\<lparr>candidate := snd (candidate_delete (candidate w) t)\<rparr>))))"

definition do_candidate_reject :: "env \<Rightarrow> string \<Rightarrow> string \<Rightarrow> world \<Rightarrow> exn option \<times> world" where
  "do_candidate_reject env t reason w =
     (case candidate_get (candidate w) t of
        None \<Rightarrow> (None, w)
      | Some e \<Rightarrow>
          (case commit env (CandidateReject t reason) of
             Some x \<Rightarrow> (Some x, log_event (CandidateReject t reason) w)
           | None \<Rightarrow>
               (None, log_event (CandidateReject t reason)
                        (w\<lparr>candidate := candidate_reject (candidate w) t reason\<rparr>))))"

section \<open>LLM services (services/llm\_service.py)\<close>

text \<open>
  \<open>BaseLLMService.generate_response\<close>: a connection error is raised again; on any
  other exception the handler evaluates \<open>self.response_model()\<close>, and every response
  model of schemas.py has required fields only, so that call raises pydantic's
  \<open>ValidationError\<close>.
\<close>

fun generate_response :: "exn + 'a option \<Rightarrow> exn + 'a option" where
  "generate_response (Inr response) = Inr response"
| "generate_response (Inl (APIConnectionError m)) = Inl (APIConnectionError m)"
| "generate_response (Inl e) = Inl (ValidationError ''Field required'')"

text \<open>\<open>FUService.generate_followups\<close>\<close>

definition generate_followups :: "env \<Rightarrow> string \<Rightarrow> string \<Rightarrow> exn + terminusAnswer option" where
  "generate_followups env t d = generate_response (followup_client env t d)"

text \<open>
  \<open>DefinitionValidationService.validate_definition\<close>: every exception of the request
  is caught and turned into \<open>None\<close>.
\<close>

definition validate_definition :: "env \<Rightarrow> string \<Rightarrow> string \<Rightarrow> exn + DefinitionValidationResult option" where
  "validate_definition env t summary =
     (if t = [] \<or> summary = [] then Inr None
      else case generate_response (validation_client env t summary) of
             Inr (Some result) \<Rightarrow> Inr (Some result)
           | Inr None \<Rightarrow> Inr None
           | Inl (APIConnectionError m) \<Rightarrow> Inr None
           | Inl e \<Rightarrow> Inr None)"

text \<open>\<open>TermExtractionService._critique_term\<close>: the \<open>i\<close>-th critique request.\<close>

definition critique_term :: "env \<Rightarrow> nat \<Rightarrow> string \<Rightarrow> bool" where
  "critique_term env i t =
     (case critique_client env i t of
        Inl e \<Rightarrow> False
      | Inr None \<Rightarrow> False
      | Inr (Some critique_response) \<Rightarrow> is_relevant critique_response)"

text \<open>The loop of \<open>validate_terms\<close> over the candidate terms.\<close>

fun critique_loop :: "env \<Rightarrow> nat \<Rightarrow> string list \<Rightarrow> string list \<Rightarrow> string list" where
  "critique_loop env i [] validated = validated"
| "critique_loop env i (t # ts) validated =
     critique_loop env (Suc i) ts (if critique_term env i t then validated @ [t] else validated)"

text \<open>\<open>TermExtractionService.validate_terms\<close>\<close>

definition validate_terms :: "env \<Rightarrow> string \<Rightarrow> exn + string list" where
  "validate_terms env txt =
     (case generate_response (extraction_client env txt) of
        Inl e \<Rightarrow> Inl e
      | Inr None \<Rightarrow> Inr []
      | Inr (Some extraction_response) \<Rightarrow>
          Inr (critique_loop env 0 (map extracted_term (terms extraction_response)) []))"

text \<open>\<open>_extract_terms_async\<close> (utils.py)\<close>

definition extract_terms_async :: "env \<Rightarrow> string \<Rightarrow> exn + string list" where
  "extract_terms_async env d = validate_terms env d"

section \<open>The background task (routers/definition.py)\<close>

text \<open>The follow-ups kept from the answer of the follow-up service.\<close>

definition follow_ups_to_save :: "exn + terminusAnswer option \<Rightarrow> follow_up_arg list" where
  "follow_ups_to_save r =
     (case r of
        Inr (Some llm_answer) \<Rightarrow>
          (if answer_follow_ups llm_answer \<noteq> []
           then map (\<lambda>fu. Dict (model_dump fu)) (answer_follow_ups llm_answer)
           else [])
      | Inr None \<Rightarrow> []
      | Inl e \<Rightarrow> [])"

definition status_reason :: "DefinitionValidationResult \<Rightarrow> string" where
  "status_reason validation_result =
     (let s = ''rejected_llm: '' @ reasoning validation_result
      in if length s > 255 then take (255 - 3) s @ ''...'' else s)"

text \<open>
  \<open>_fetch_validate_and_store_definition\<close>.  The task returns nothing; an exception
  that reaches the outermost handler is logged and dropped, so the result is the state
  the task leaves.
\<close>

definition fetch_validate_and_store_definition :: "env \<Rightarrow> string \<Rightarrow> world \<Rightarrow> world" where
  "fetch_validate_and_store_definition env term0 w =
     (let t = lower (strip term0) in
      if terminus_exists (terminus w) t then w
      else if candidate_exists (candidate w) t then w
      else
        let w1 = log_event (WikipediaQuery t) w in
        case wikipedia env t of
          Inl e \<Rightarrow>
            snd (do_candidate_save env t (''Error fetching: '' @ str_exn e) []
                   (''wikipedia_error: '' @ take 200 (str_exn e)) w1)
        | Inr candidate_summary \<Rightarrow>
            if startswith candidate_summary ''Could not find''
               \<or> startswith candidate_summary ''An error occurred''
            then snd (do_candidate_save env t candidate_summary []
                        (''wikipedia_failed: '' @ take 200 candidate_summary) w1)
            else if startswith candidate_summary ''Please provide'' then w1
            else
              let w2 = log_event (ValidateDefinition t candidate_summary) w1 in
              case validate_definition env t candidate_summary of
                Inl e \<Rightarrow>
                  snd (do_candidate_save env t candidate_summary []
                         (''validation_error: '' @ take 200 (str_exn e)) w2)
              | Inr None \<Rightarrow>
                  snd (do_candidate_save env t candidate_summary []
                         ''validation_failed: LLM returned no result'' w2)
              | Inr (Some validation_result) \<Rightarrow>
                  if is_valid validation_result then
                    let w3 = log_event (GenerateFollowups t candidate_summary) w2;
                        fus = follow_ups_to_save (generate_followups env t candidate_summary)
                    in case do_terminus_save env t candidate_summary fus w3 of
                         (None, w4) \<Rightarrow> w4
                       | (Some e, w4) \<Rightarrow>
                           snd (do_candidate_save env t candidate_summary fus
                                  (''save_to_official_error: '' @ take 200 (str_exn e)) w4)
                  else
                    snd (do_candidate_save env t candidate_summary []
                           (status_reason validation_result) w2))"

section \<open>Candidate routes (routers/candidate.py)\<close>

text \<open>\<open>validate_candidate\<close>: the result is the response or the exception raised.\<close>

definition validate_candidate :: "env \<Rightarrow> CandidateValidation \<Rightarrow> world \<Rightarrow> (exn + terminusAnswer) \<times> world" where
  "validate_candidate env validation w =
     (case candidate_get (candidate w) (validation_term validation) of
        None \<Rightarrow> (Inl (HTTPException 404 ''Candidate not found''), w)
      | Some candidate_db_obj \<Rightarrow>
          if \<not> validation_approve validation then
            (case do_candidate_reject env (validation_term validation) ''Disapproved by user'' w of
               (Some e, w1) \<Rightarrow> (Inl e, w1)
             | (None, w1) \<Rightarrow> (Inl (HTTPException 400 ''Candidate rejected''), w1))
          else
            (case candidate_deserialize_follow_ups (entry_follow_ups candidate_db_obj) of
               Inl e \<Rightarrow> (Inl e, w)
             | Inr follow_ups_list \<Rightarrow>
                 (case do_terminus_save env (entry_term candidate_db_obj)
                         (entry_definition candidate_db_obj) (map Model follow_ups_list) w of
                    (Some e, w1) \<Rightarrow> (Inl e, w1)
                  | (None, w1) \<Rightarrow>
                      (case do_candidate_delete env (entry_term candidate_db_obj) w1 of
                         (Inl e, w2) \<Rightarrow> (Inl e, w2)
                       | (Inr deleted, w2) \<Rightarrow>
                           (case terminus_get_as_pydantic (terminus w2) (entry_term candidate_db_obj) of
                              Inl e \<Rightarrow> (Inl e, w2)
                            | Inr None \<Rightarrow>
                                (Inl (HTTPException 500 ''Error saving candidate to official terminus''), w2)
                            | Inr (Some official) \<Rightarrow> (Inr official, w2))))))"

text \<open>A follow-up dict as the routes build it.\<close>

definition follow_up_dict :: "string \<Rightarrow> string \<Rightarrow> follow_up_arg" where
  "follow_up_dict t sub_def =
     Dict [(''term'', JStr t), (''question'', JStr (''What is '' @ t @ ''?'')),
           (''definition'', JStr sub_def)]"

text \<open>The loop of \<open>create_candidate\<close> over \<open>sub_terms[:3]\<close>.\<close>

fun create_follow_ups :: "env \<Rightarrow> string list \<Rightarrow> follow_up_arg list \<Rightarrow> world \<Rightarrow> follow_up_arg list \<times> world" where
  "create_follow_ups env [] follow_ups w = (follow_ups, w)"
| "create_follow_ups env (t # ts) follow_ups w =
     (case (case terminus_get (terminus w) t of
              Some sub_entry \<Rightarrow> Some (entry_definition sub_entry)
            | None \<Rightarrow> map_option entry_definition (candidate_get (candidate w) t)) of
        Some sub_def \<Rightarrow> create_follow_ups env ts (follow_ups @ [follow_up_dict t sub_def]) w
      | None \<Rightarrow>
          (case wikipedia env t of
             Inl e \<Rightarrow> create_follow_ups env ts follow_ups (log_event (WikipediaQuery t) w)
           | Inr sub_def \<Rightarrow>
               create_follow_ups env ts (follow_ups @ [follow_up_dict t sub_def])
                 (log_event (WikipediaQuery t) w)))"

text \<open>\<open>create_candidate\<close>\<close>

definition create_candidate :: "env \<Rightarrow> terminusEntryCreate \<Rightarrow> world \<Rightarrow> (exn + CandidateterminusAnswer option) \<times> world" where
  "create_candidate env entry w =
     (if terminus_get (terminus w) (create_term entry) \<noteq> None
      then (Inl (HTTPException 409 ''Term already in official terminus''), w)
      else if candidate_get (candidate w) (create_term entry) \<noteq> None
      then (Inl (HTTPException 409 ''Candidate already exists''), w)
      else
        case (if create_definition entry \<noteq> [] then (Inr (create_definition entry), w)
              else (wikipedia env (create_term entry),
                    log_event (WikipediaQuery (create_term entry)) w)) of
          (Inl e, w1) \<Rightarrow> (Inl e, w1)
        | (Inr d, w1) \<Rightarrow>
            (case extract_terms_async env d of
               Inl e \<Rightarrow> (Inl e, log_event (ExtractTerms d) w1)
             | Inr sub_terms \<Rightarrow>
                 (case create_follow_ups env (take 3 sub_terms) [] (log_event (ExtractTerms d) w1) of
                    (follow_ups, w2) \<Rightarrow>
                      (case do_candidate_save env (create_term entry) d follow_ups ''pending'' w2 of
                         (Some e, w3) \<Rightarrow> (Inl e, w3)
                       | (None, w3) \<Rightarrow>
                           (case candidate_get_as_pydantic (candidate w3) (create_term entry) of
                              Inl e \<Rightarrow> (Inl e, w3)
                            | Inr candidate_answer \<Rightarrow> (Inr candidate_answer, w3))))))"

section \<open>Term routes (routers/terms.py)\<close>

text \<open>The inner loop of \<open>precompute_terms\<close> over \<open>related_terms[:3]\<close>.\<close>

fun precompute_follow_ups :: "env \<Rightarrow> string \<Rightarrow> string list \<Rightarrow> follow_up_arg list \<Rightarrow> world \<Rightarrow> (exn + follow_up_arg list) \<times> world" where
  "precompute_follow_ups env t [] follow_ups w = (Inr follow_ups, w)"
| "precompute_follow_ups env t (sub_term # rest) follow_ups w =
     (if lower sub_term = lower t then precompute_follow_ups env t rest follow_ups w
      else case wikipedia env sub_term of
             Inl e \<Rightarrow> (Inl e, log_event (WikipediaQuery sub_term) w)
           | Inr sub_def \<Rightarrow>
               precompute_follow_ups env t rest (follow_ups @ [follow_up_dict sub_term sub_def])
                 (log_event (WikipediaQuery sub_term) w))"

text \<open>The outer loop of \<open>precompute_terms\<close> over the validated terms.\<close>

fun precompute_loop :: "env \<Rightarrow> string list \<Rightarrow> string list \<Rightarrow> world \<Rightarrow> (exn + string list) \<times> world" where
  "precompute_loop env [] added_terms w = (Inr added_terms, w)"
| "precompute_loop env (t # rest) added_terms w =
     (if terminus_get (terminus w) t \<noteq> None \<or> candidate_get (candidate w) t \<noteq> None
      then precompute_loop env rest added_terms w
      else case wikipedia env t of
             Inl e \<Rightarrow> (Inl e, log_event (WikipediaQuery t) w)
           | Inr d \<Rightarrow>
               (case extract_terms_async env d of
                  Inl e \<Rightarrow> (Inl e, log_event (ExtractTerms d) (log_event (WikipediaQuery t) w))
                | Inr related_terms \<Rightarrow>
                    (case precompute_follow_ups env t (take 3 related_terms) []
                            (log_event (ExtractTerms d) (log_event (WikipediaQuery t) w)) of
                       (Inl e, w1) \<Rightarrow> (Inl e, w1)
                     | (Inr follow_ups, w1) \<Rightarrow>
                         (case do_candidate_save env t d follow_ups ''pending'' w1 of
                            (Some e, w2) \<Rightarrow> (Inl e, w2)
                          | (None, w2) \<Rightarrow> precompute_loop env rest (added_terms @ [t]) w2))))"

text \<open>\<open>precompute_terms\<close>\<close>

definition precompute_terms :: "env \<Rightarrow> string \<Rightarrow> world \<Rightarrow> (exn + string list) \<times> world" where
  "precompute_terms env txt w =
     (case validate_terms env txt of
        Inl e \<Rightarrow> (Inl e, log_event (ExtractTerms txt) w)
      | Inr validated_terms \<Rightarrow> precompute_loop env validated_terms [] (log_event (ExtractTerms txt) w))"

text \<open>\<open>extract_terms\<close>\<close>

definition extract_terms :: "env \<Rightarrow> string \<Rightarrow> exn + ExtractedTerms" where
  "extract_terms env txt =
     (case validate_terms env txt of
        Inl e \<Rightarrow> Inl e
      | Inr validated_terms \<Rightarrow>
          Inr \<lparr>terms = map (\<lambda>t. \<lparr>extracted_term = t\<rparr>) validated_terms\<rparr>)"

section \<open>The follow-up cap\<close>

text \<open>A write respects the cap when it persists at most three follow-ups.\<close>

fun follow_ups_capped :: "event \<Rightarrow> bool" where
  "follow_ups_capped (TerminusSave t d follow_ups) = (length follow_ups \<le> 3)"
| "follow_ups_capped (CandidateSave t d follow_ups status) = (length follow_ups \<le> 3)"
| "follow_ups_capped _ = True"

section \<open>Sample inputs\<close>

text \<open>Concrete states and environments on which the theorems below are evaluated.\<close>

definition w0 :: world where
  "w0 = \<lparr>terminus = [], candidate = [], trace = []\<rparr>"

definition gdp_summary :: string where
  "gdp_summary = ''Gross domestic product is a monetary measure.''"

definition env6 :: env where
  "env6 = \<lparr>wikipedia = (\<lambda>t. Inr gdp_summary),
           validation_client = (\<lambda>t s. Inl (APIConnectionError ''connection refused'')),
           followup_client = (\<lambda>t s. Inr None),
           extraction_client = (\<lambda>x. Inr None),
           critique_client = (\<lambda>i t. Inr None),
           commit = (\<lambda>ev. None)\<rparr>"

definition env7 :: env where
  "env7 = \<lparr>wikipedia = (\<lambda>t. Inr gdp_summary),
           validation_client = (\<lambda>t s. Inr (Some \<lparr>is_valid = True, reasoning = ''accurate''\<rparr>)),
           followup_client = (\<lambda>t s. Inl (APIConnectionError ''connection refused'')),
           extraction_client = (\<lambda>x. Inr None),
           critique_client = (\<lambda>i t. Inr None),
           commit = (\<lambda>ev. None)\<rparr>"

definition env8 :: env where
  "env8 = \<lparr>wikipedia = (\<lambda>t. Inr ''''),
           validation_client = (\<lambda>t s. Inr None),
           followup_client = (\<lambda>t s. Inr None),
           extraction_client = (\<lambda>x. Inr (Some \<lparr>terms =
              [\<lparr>extracted_term = ''inflation''\<rparr>, \<lparr>extracted_term = ''the''\<rparr>,
               \<lparr>extracted_term = ''inflation''\<rparr>, \<lparr>extracted_term = ''bond''\<rparr>]\<rparr>)),
           critique_client = (\<lambda>i t.
              if i = 1 then Inl (Exception ''timeout'')
              else Inr (Some \<lparr>critiqued_term = t, is_relevant = (i \<noteq> 3), critique_reason = ''''\<rparr>)),
           commit = (\<lambda>ev. None)\<rparr>"

definition w_gdp :: world where
  "w_gdp = \<lparr>terminus = [\<lparr>entry_term = ''gdp'', entry_definition = gdp_summary,
                           entry_follow_ups = None\<rparr>],
            candidate = [], trace = []\<rparr>"

definition fu_cpi :: FollowUp where
  "fu_cpi = \<lparr>fu_term = ''cpi'', fu_question = ''What is cpi?'',
             fu_definition = ''Consumer price index.''\<rparr>"

definition inflation_row :: CandidateterminusEntry where
  "inflation_row = \<lparr>entry_term = ''inflation'', entry_definition = ''A general rise in prices.'',
                    entry_follow_ups = Some (Encoded (JList [JDict (model_dump fu_cpi)])),
                    entry_status = ''pending''\<rparr>"

definition w_cand :: world where
  "w_cand = \<lparr>terminus = [], candidate = [inflation_row], trace = []\<rparr>"

definition approve_inflation :: CandidateValidation where
  "approve_inflation = \<lparr>validation_term = ''Inflation'', validation_approve = True,
                        validation_reason = ''ok''\<rparr>"

definition env5 :: env where
  "env5 = \<lparr>wikipedia = (\<lambda>t. Inr gdp_summary),
           validation_client = (\<lambda>t s. Inr None),
           followup_client = (\<lambda>t s. Inr None),
           extraction_client = (\<lambda>x. Inr None),
           critique_client = (\<lambda>i t. Inr None),
           commit = (\<lambda>ev. case ev of
                       TerminusSave t d fs \<Rightarrow> Some (SQLAlchemyError ''database is locked'')
                     | _ \<Rightarrow> None)\<rparr>"

definition four_follow_ups :: "FollowUp list" where
  "four_follow_ups =
     [\<lparr>fu_term = ''output'', fu_question = ''What is output?'', fu_definition = ''a''\<rparr>,
      \<lparr>fu_term = ''income'', fu_question = ''What is income?'', fu_definition = ''b''\<rparr>,
      \<lparr>fu_term = ''market value'', fu_question = ''What is market value?'', fu_definition = ''c''\<rparr>,
      \<lparr>fu_term = ''inflation'', fu_question = ''What is inflation?'', fu_definition = ''d''\<rparr>]"

definition env4 :: env where
  "env4 = \<lparr>wikipedia = (\<lambda>t. Inr gdp_summary),
           validation_client = (\<lambda>t s. Inr (Some \<lparr>is_valid = True, reasoning = ''accurate''\<rparr>)),
           followup_client = (\<lambda>t s. Inr (Some \<lparr>answer_term = t, answer_definition = s,
                                                 answer_follow_ups = four_follow_ups\<rparr>)),
           extraction_client = (\<lambda>x. Inr None),
           critique_client = (\<lambda>i t. Inr None),
           commit = (\<lambda>ev. None)\<rparr>"

section \<open>Basic facts\<close>

lemma lower_char_idem: "lower_char (lower_char c) = lower_char c"
  by (auto simp: lower_char_def Let_def)

lemma lower_idem: "lower (lower s) = lower s"
  by (simp add: lower_def lower_char_idem)

lemma lower_char_not_upper: "\<not> is_upper_char (lower_char c)"
  by (auto simp: lower_char_def is_upper_char_def Let_def)

lemma lower_no_upper: "\<not> list_ex is_upper_char (lower s)"
  by (induction s) (simp_all add: lower_def lower_char_not_upper)

lemma FollowUp_of_model_dump: "FollowUp_of (JDict (model_dump fu)) = Inr fu"
  by (simp add: model_dump_def)

lemma FollowUp_list_model_dump:
  "FollowUp_list (map (\<lambda>fu. JDict (model_dump fu)) fus) = Inr fus"
  by (induction fus) (simp_all add: FollowUp_of_model_dump del: FollowUp_of.simps)

lemma terminus_roundtrip:
  "terminus_deserialize_follow_ups (terminus_serialize_follow_ups (map Model fus)) = Inr fus"
  using FollowUp_list_model_dump [of fus]
  by (simp add: terminus_deserialize_follow_ups_def terminus_serialize_follow_ups_def
      json_dumps_def comp_def)

lemma candidate_roundtrip:
  "candidate_deserialize_follow_ups (candidate_serialize_follow_ups (map Model fus)) = Inr fus"
  using FollowUp_list_model_dump [of fus]
  by (simp add: candidate_deserialize_follow_ups_def candidate_serialize_follow_ups_def
      json_dumps_def comp_def)

section \<open>Evaluation of the string functions on the sample terms\<close>

lemma lower_GDP: "lower ''GDP'' = ''gdp''"
  by code_simp

lemma lower_Gdp: "lower ''Gdp'' = ''gdp''"
  by code_simp

lemma lower_gdp: "lower ''gdp'' = ''gdp''"
  by code_simp

lemma lower_sp_gdp: "lower '' gdp'' = '' gdp''"
  by code_simp

lemma strip_sp_gdp: "strip '' gdp'' = ''gdp''"
  by code_simp

lemma strip_gdp: "strip ''gdp'' = ''gdp''"
  by code_simp

lemma strip_lower_GDP: "lower (strip '' GDP '') = ''gdp''"
  by code_simp

lemma gdp_summary_usable:
  "\<not> startswith gdp_summary ''Could not find''"
  "\<not> startswith gdp_summary ''An error occurred''"
  "\<not> startswith gdp_summary ''Please provide''"
  "gdp_summary \<noteq> []"
  by (simp_all add: startswith_def gdp_summary_def)

lemma status_not_validation_error:
  "\<not> startswith ''validation_failed: LLM returned no result'' ''validation_error:''"
  by (simp add: startswith_def)

section \<open>Facts about the session\<close>

lemma set_session_merge: "set (session_merge e tbl) \<subseteq> insert e (set tbl)"
  by (auto simp: session_merge_def)

lemma query_exists_session_merge: "query_exists (session_merge e tbl) (entry_term e)"
  by (auto simp: session_merge_def query_exists_def list_ex_iff)

lemma find_app: "find P (xs @ ys) = (case find P xs of None \<Rightarrow> find P ys | Some x \<Rightarrow> Some x)"
  by (induction xs) simp_all

lemma query_first_term: "query_first tbl k = Some e \<Longrightarrow> entry_term e = k"
  by (auto simp: query_first_def dest: find_Some_iff[THEN iffD1])

lemma query_exists_iff: "query_exists tbl k \<longleftrightarrow> query_first tbl k \<noteq> None"
  by (auto simp: query_exists_def query_first_def list_ex_iff find_None_iff)

lemma query_first_session_merge_same: "query_first (session_merge e tbl) (entry_term e) = Some e"
proof (cases "list_ex (\<lambda>r. entry_term r = entry_term e) tbl")
  case True
  then show ?thesis
    by (induction tbl) (auto simp: session_merge_def query_first_def)
next
  case False
  then have "find (\<lambda>r. entry_term r = entry_term e) tbl = None"
    by (simp add: find_None_iff list_ex_iff)
  with False show ?thesis
    by (simp add: session_merge_def query_first_def find_app)
qed

lemma find_replace_other:
  "k \<noteq> entry_term e \<Longrightarrow>
   find (\<lambda>r. entry_term r = k) (map (\<lambda>r. if entry_term r = entry_term e then e else r) tbl) =
   find (\<lambda>r. entry_term r = k) tbl"
  by (induction tbl) auto

lemma query_first_session_merge_other:
  "k \<noteq> entry_term e \<Longrightarrow> query_first (session_merge e tbl) k = query_first tbl k"
  by (simp add: session_merge_def query_first_def find_app find_replace_other split: option.splits)

lemma query_first_session_delete_same: "query_first (session_delete e tbl) (entry_term e) = None"
  by (simp add: session_delete_def query_first_def find_None_iff)

lemma query_first_session_delete_other:
  "k \<noteq> entry_term e \<Longrightarrow> query_first (session_delete e tbl) k = query_first tbl k"
  by (induction tbl) (auto simp: session_delete_def query_first_def)

lemma serialize_dict_model_dump:
  "terminus_serialize_follow_ups (map (\<lambda>fu. Dict (model_dump fu)) fus) =
     terminus_serialize_follow_ups (map Model fus)"
  "candidate_serialize_follow_ups (map (\<lambda>fu. Dict (model_dump fu)) fus) =
     candidate_serialize_follow_ups (map Model fus)"
  by (simp_all add: terminus_serialize_follow_ups_def candidate_serialize_follow_ups_def comp_def)

lemma terminus_get_as_pydantic_save:
  "terminus_get_as_pydantic (terminus_save tbl t d (map Model fus)) t =
     Inr (Some \<lparr>answer_term = lower t, answer_definition = d, answer_follow_ups = fus\<rparr>)"
  using query_first_session_merge_same
          [of "\<lparr>entry_term = lower t, entry_definition = d,
               entry_follow_ups = terminus_serialize_follow_ups (map Model fus)\<rparr>" tbl]
  by (simp add: terminus_get_as_pydantic_def terminus_save_def terminus_roundtrip)

lemma candidate_get_as_pydantic_save:
  "candidate_get_as_pydantic (candidate_save tbl t d (map Model fus) st) t =
     Inr (Some \<lparr>answer_term = lower t, answer_definition = d, answer_follow_ups = fus,
                answer_status = st\<rparr>)"
  using query_first_session_merge_same
          [of "\<lparr>entry_term = lower t, entry_definition = d,
               entry_follow_ups = candidate_serialize_follow_ups (map Model fus),
               entry_status = st\<rparr>" tbl]
  by (simp add: candidate_get_as_pydantic_def candidate_save_def candidate_roundtrip)

section \<open>Every operation addresses the lowercased key\<close>

lemma dropWhile_same_length: "length (dropWhile P xs) = length xs \<Longrightarrow> dropWhile P xs = xs"
proof (cases xs)
  case Nil
  then show ?thesis by simp
next
  case (Cons x ys)
  assume l: "length (dropWhile P xs) = length xs"
  show ?thesis
  proof (cases "P x")
    case True
    have "length (dropWhile P ys) \<le> length ys" by (rule length_dropWhile_le)
    with l Cons True show ?thesis by simp
  next
    case False
    with Cons show ?thesis by simp
  qed
qed

lemma strip_same_length: "length (strip t) = length t \<Longrightarrow> strip t = t"
proof -
  assume l: "length (strip t) = length t"
  have a: "length (dropWhile isspace (rev (dropWhile isspace t))) \<le> length (dropWhile isspace t)"
    using length_dropWhile_le [of isspace "rev (dropWhile isspace t)"] by simp
  have b: "length (dropWhile isspace t) \<le> length t" by (rule length_dropWhile_le)
  from l a b have c: "length (dropWhile isspace t) = length t" by (simp add: strip_def)
  then have d: "dropWhile isspace t = t" by (rule dropWhile_same_length)
  from l d have "length (dropWhile isspace (rev t)) = length (rev t)" by (simp add: strip_def)
  then have "dropWhile isspace (rev t) = rev t" by (rule dropWhile_same_length)
  with d show ?thesis by (simp add: strip_def)
qed

lemma lower_strip_differs: "strip t \<noteq> t \<Longrightarrow> lower (strip t) \<noteq> lower t"
proof
  assume n: "strip t \<noteq> t" and e: "lower (strip t) = lower t"
  from e have "length (lower (strip t)) = length (lower t)" by simp
  then have "length (strip t) = length t" by (simp add: lower_def)
  then have "strip t = t" by (rule strip_same_length)
  with n show False by simp
qed

lemma find_key_image:
  "(find (\<lambda>e. entry_term e = k) tbl \<noteq> None) = (k \<in> entry_term ` set tbl)"
  by (auto simp: find_None_iff)

lemma find_key_None_filter:
  "find (\<lambda>e. entry_term e = k) tbl = None \<Longrightarrow> filter (\<lambda>r. entry_term r \<noteq> k) tbl = tbl"
  by (induction tbl) (auto split: if_splits)

lemma query_exists_image: "query_exists tbl k = (k \<in> entry_term ` set tbl)"
  by (auto simp: query_exists_def list_ex_iff)

lemma delete_addresses_key:
  "(case query_first tbl k of None \<Rightarrow> (False, tbl) | Some e \<Rightarrow> (True, session_delete e tbl)) =
     (k \<in> entry_term ` set tbl, filter (\<lambda>r. entry_term r \<noteq> k) tbl)"
proof (cases "query_first tbl k")
  case None
  then have f: "find (\<lambda>e. entry_term e = k) tbl = None" by (simp add: query_first_def)
  then have "k \<notin> entry_term ` set tbl" using find_key_image [of k tbl] by simp
  with None f show ?thesis by (simp add: find_key_None_filter)
next
  case (Some e)
  then have t: "entry_term e = k" by (rule query_first_term)
  from Some have "k \<in> entry_term ` set tbl"
    using find_key_image [of k tbl] by (simp add: query_first_def)
  with Some t show ?thesis by (simp add: session_delete_def)
qed

lemma terminus_delete_addresses_key:
  "terminus_delete tbl t =
     (lower t \<in> entry_term ` set tbl, filter (\<lambda>r. entry_term r \<noteq> lower t) tbl)"
  unfolding terminus_delete_def by (rule delete_addresses_key)

lemma candidate_delete_addresses_key:
  "candidate_delete tbl t =
     (lower t \<in> entry_term ` set tbl, filter (\<lambda>r. entry_term r \<noteq> lower t) tbl)"
  unfolding candidate_delete_def by (rule delete_addresses_key)

lemma terminus_get_as_pydantic_addresses_key:
  "terminus_get_as_pydantic tbl t =
     (case find (\<lambda>e. entry_term e = lower t) tbl of
        None \<Rightarrow> Inr None
      | Some e \<Rightarrow>
          (case terminus_deserialize_follow_ups (entry_follow_ups e) of
             Inl x \<Rightarrow> Inl x
           | Inr F \<Rightarrow> Inr (Some \<lparr>answer_term = lower t, answer_definition = entry_definition e,
                                  answer_follow_ups = F\<rparr>)))"
proof (cases "query_first tbl (lower t)")
  case None
  then show ?thesis by (simp add: terminus_get_as_pydantic_def query_first_def)
next
  case (Some e)
  then have "entry_term e = lower t" by (rule query_first_term)
  with Some show ?thesis
    by (simp add: terminus_get_as_pydantic_def query_first_def split: sum.splits)
qed

lemma candidate_get_as_pydantic_addresses_key:
  "candidate_get_as_pydantic tbl t =
     (case find (\<lambda>e. entry_term e = lower t) tbl of
        None \<Rightarrow> Inr None
      | Some e \<Rightarrow>
          (case candidate_deserialize_follow_ups (entry_follow_ups e) of
             Inl x \<Rightarrow> Inl x
           | Inr F \<Rightarrow> Inr (Some \<lparr>answer_term = lower t, answer_definition = entry_definition e,
                                  answer_follow_ups = F, answer_status = entry_status e\<rparr>)))"
proof (cases "query_first tbl (lower t)")
  case None
  then show ?thesis by (simp add: candidate_get_as_pydantic_def query_first_def)
next
  case (Some e)
  then have "entry_term e = lower t" by (rule query_first_term)
  with Some show ?thesis
    by (simp add: candidate_get_as_pydantic_def query_first_def split: sum.splits)
qed

lemma terminus_save_addresses_key:
  "terminus_get (terminus_save tbl t d fs) t =
     Some \<lparr>entry_term = lower t, entry_definition = d,
           entry_follow_ups = terminus_serialize_follow_ups fs\<rparr>"
  "k \<noteq> lower t \<Longrightarrow>
     find (\<lambda>e. entry_term e = k) (terminus_save tbl t d fs) = find (\<lambda>e. entry_term e = k) tbl"
  using query_first_session_merge_same
          [of "\<lparr>entry_term = lower t, entry_definition = d,
               entry_follow_ups = terminus_serialize_follow_ups fs\<rparr>" tbl]
        query_first_session_merge_other
          [of k "\<lparr>entry_term = lower t, entry_definition = d,
               entry_follow_ups = terminus_serialize_follow_ups fs\<rparr>" tbl]
  by (simp_all add: terminus_get_def terminus_save_def query_first_def)

lemma candidate_save_addresses_key:
  "candidate_get (candidate_save tbl t d fs st) t =
     Some \<lparr>entry_term = lower t, entry_definition = d,
           entry_follow_ups = candidate_serialize_follow_ups fs, entry_status = st\<rparr>"
  "k \<noteq> lower t \<Longrightarrow>
     find (\<lambda>e. entry_term e = k) (candidate_save tbl t d fs st) = find (\<lambda>e. entry_term e = k) tbl"
  using query_first_session_merge_same
          [of "\<lparr>entry_term = lower t, entry_definition = d,
               entry_follow_ups = candidate_serialize_follow_ups fs, entry_status = st\<rparr>" tbl]
        query_first_session_merge_other
          [of k "\<lparr>entry_term = lower t, entry_definition = d,
               entry_follow_ups = candidate_serialize_follow_ups fs, entry_status = st\<rparr>" tbl]
  by (simp_all add: candidate_get_def candidate_save_def query_first_def)

lemma candidate_reject_addresses_key:
  "candidate_get (candidate_reject tbl t r) t =
     map_option (\<lambda>e. e\<lparr>entry_status := ''rejected: '' @ r\<rparr>) (candidate_get tbl t)"
  "k \<noteq> lower t \<Longrightarrow>
     find (\<lambda>e. entry_term e = k) (candidate_reject tbl t r) = find (\<lambda>e. entry_term e = k) tbl"
proof -
  show "candidate_get (candidate_reject tbl t r) t =
     map_option (\<lambda>e. e\<lparr>entry_status := ''rejected: '' @ r\<rparr>) (candidate_get tbl t)"
  proof (cases "query_first tbl (lower t)")
    case None
    then show ?thesis by (simp add: candidate_reject_def candidate_get_def)
  next
    case (Some e)
    then have "entry_term e = lower t" by (rule query_first_term)
    with Some query_first_session_merge_same [of "e\<lparr>entry_status := ''rejected: '' @ r\<rparr>" tbl]
    show ?thesis by (simp add: candidate_reject_def candidate_get_def)
  qed
next
  assume k: "k \<noteq> lower t"
  show "find (\<lambda>e. entry_term e = k) (candidate_reject tbl t r) = find (\<lambda>e. entry_term e = k) tbl"
  proof (cases "query_first tbl (lower t)")
    case None
    then show ?thesis by (simp add: candidate_reject_def)
  next
    case (Some e)
    then have "entry_term e = lower t" by (rule query_first_term)
    with Some k query_first_session_merge_other [of k "e\<lparr>entry_status := ''rejected: '' @ r\<rparr>" tbl]
    show ?thesis by (simp add: candidate_reject_def query_first_def)
  qed
qed

section \<open>Claims about the stores\<close>

text \<open>
  C10.  In both stores, reading an entry whose persisted \<open>follow_ups\<close> field is
  \<open>None\<close> or the empty string gives the empty follow-up list and raises nothing:
  \<open>_deserialize_follow_ups\<close> returns \<open>[]\<close>, and \<open>get_as_pydantic\<close> returns the
  entry with \<open>follow_ups = []\<close>.
\<close>

theorem empty_follow_ups_tolerated:
  assumes "c = None \<or> c = Some EmptyStr"
  shows "terminus_deserialize_follow_ups c = Inr []
       \<and> candidate_deserialize_follow_ups c = Inr []
       \<and> (terminus_get tbl t = Some e \<and> entry_follow_ups e = c \<longrightarrow>
            terminus_get_as_pydantic tbl t =
              Inr (Some \<lparr>answer_term = entry_term e, answer_definition = entry_definition e,
                         answer_follow_ups = []\<rparr>))
       \<and> (candidate_get ctbl t = Some ce \<and> entry_follow_ups ce = c \<longrightarrow>
            candidate_get_as_pydantic ctbl t =
              Inr (Some \<lparr>answer_term = entry_term ce, answer_definition = entry_definition ce,
                         answer_follow_ups = [], answer_status = entry_status ce\<rparr>))"
  using assms
  by (auto simp: terminus_deserialize_follow_ups_def candidate_deserialize_follow_ups_def
      terminus_get_def candidate_get_def terminus_get_as_pydantic_def candidate_get_as_pydantic_def)

theorem empty_follow_ups_tolerated_witness:
  "terminus_deserialize_follow_ups (Some EmptyStr) = Inr []
   \<and> candidate_deserialize_follow_ups (Some EmptyStr) = Inr []
   \<and> terminus_get_as_pydantic
        [\<lparr>entry_term = ''gdp'', entry_definition = ''d'', entry_follow_ups = Some EmptyStr\<rparr>] ''GDP''
      = Inr (Some \<lparr>answer_term = ''gdp'', answer_definition = ''d'', answer_follow_ups = []\<rparr>)
   \<and> candidate_get_as_pydantic
        [\<lparr>entry_term = ''gdp'', entry_definition = ''d'', entry_follow_ups = Some EmptyStr,
          entry_status = ''pending''\<rparr>] ''GDP''
      = Inr (Some \<lparr>answer_term = ''gdp'', answer_definition = ''d'', answer_follow_ups = [],
                   answer_status = ''pending''\<rparr>)"
  using empty_follow_ups_tolerated [of "Some EmptyStr"
      "[\<lparr>entry_term = ''gdp'', entry_definition = ''d'', entry_follow_ups = Some EmptyStr\<rparr>]" "''GDP''"
      "\<lparr>entry_term = ''gdp'', entry_definition = ''d'', entry_follow_ups = Some EmptyStr\<rparr>"
      "[\<lparr>entry_term = ''gdp'', entry_definition = ''d'', entry_follow_ups = Some EmptyStr,
          entry_status = ''pending''\<rparr>]"
      "\<lparr>entry_term = ''gdp'', entry_definition = ''d'', entry_follow_ups = Some EmptyStr,
          entry_status = ''pending''\<rparr>"]
  by (simp add: terminus_get_def candidate_get_def query_first_def lower_GDP)

text \<open>
  C9.  Every store operation (get, get\_as\_pydantic, save, delete, exists, reject)
  addresses the key \<open>term.lower()\<close>.  Two terms with the same lowercasing are
  treated alike by every operation.  Each operation is determined by that key:
  \<open>get\<close> and \<open>get_as_pydantic\<close> read the first row whose key is the lowercased
  term, \<open>exists\<close> tells whether the lowercased term is among the keys, \<open>delete\<close>
  removes the rows with that key and tells whether there was one, \<open>save\<close> makes
  the row with that key the one it was given, \<open>reject\<close> sets the status of the row
  with that key, and the last two leave the rows found under any other key as they
  were.  The only row \<open>save\<close> adds carries the lowercased term as its key, which
  has no capital letter and is a fixed point of \<open>lower\<close>.
\<close>

theorem store_keys_lowercased:
  assumes "lower t1 = lower t2"
  shows "(terminus_get tbl t1 = terminus_get tbl t2
       \<and> terminus_get_as_pydantic tbl t1 = terminus_get_as_pydantic tbl t2
       \<and> terminus_save tbl t1 d fs = terminus_save tbl t2 d fs
       \<and> terminus_delete tbl t1 = terminus_delete tbl t2
       \<and> terminus_exists tbl t1 = terminus_exists tbl t2
       \<and> candidate_get ctbl t1 = candidate_get ctbl t2
       \<and> candidate_get_as_pydantic ctbl t1 = candidate_get_as_pydantic ctbl t2
       \<and> candidate_save ctbl t1 d fs st = candidate_save ctbl t2 d fs st
       \<and> candidate_delete ctbl t1 = candidate_delete ctbl t2
       \<and> candidate_exists ctbl t1 = candidate_exists ctbl t2
       \<and> candidate_reject ctbl t1 r = candidate_reject ctbl t2 r
       \<and> terminus_get tbl t1 = query_first tbl (lower t1)
       \<and> candidate_get ctbl t1 = query_first ctbl (lower t1)
       \<and> set (terminus_save tbl t1 d fs) \<subseteq>
            insert \<lparr>entry_term = lower t1, entry_definition = d,
                    entry_follow_ups = terminus_serialize_follow_ups fs\<rparr> (set tbl)
       \<and> set (candidate_save ctbl t1 d fs st) \<subseteq>
            insert \<lparr>entry_term = lower t1, entry_definition = d,
                    entry_follow_ups = candidate_serialize_follow_ups fs,
                    entry_status = st\<rparr> (set ctbl)
       \<and> query_exists (terminus_save tbl t1 d fs) (lower t1)
       \<and> query_exists (candidate_save ctbl t1 d fs st) (lower t1)
       \<and> lower (lower t1) = lower t1
       \<and> \<not> list_ex is_upper_char (lower t1))
     \<and> (terminus_get tbl t1 = find (\<lambda>e. entry_term e = lower t1) tbl
       \<and> terminus_get_as_pydantic tbl t1 =
           (case find (\<lambda>e. entry_term e = lower t1) tbl of
              None \<Rightarrow> Inr None
            | Some e \<Rightarrow>
                (case terminus_deserialize_follow_ups (entry_follow_ups e) of
                   Inl x \<Rightarrow> Inl x
                 | Inr F \<Rightarrow> Inr (Some \<lparr>answer_term = lower t1,
                                        answer_definition = entry_definition e,
                                        answer_follow_ups = F\<rparr>)))
       \<and> terminus_exists tbl t1 = (lower t1 \<in> entry_term ` set tbl)
       \<and> terminus_delete tbl t1 =
           (lower t1 \<in> entry_term ` set tbl, filter (\<lambda>r. entry_term r \<noteq> lower t1) tbl)
       \<and> terminus_get (terminus_save tbl t1 d fs) t1 =
           Some \<lparr>entry_term = lower t1, entry_definition = d,
                 entry_follow_ups = terminus_serialize_follow_ups fs\<rparr>
       \<and> (\<forall>k. k \<noteq> lower t1 \<longrightarrow>
             find (\<lambda>e. entry_term e = k) (terminus_save tbl t1 d fs) =
             find (\<lambda>e. entry_term e = k) tbl)
       \<and> candidate_get ctbl t1 = find (\<lambda>e. entry_term e = lower t1) ctbl
       \<and> candidate_get_as_pydantic ctbl t1 =
           (case find (\<lambda>e. entry_term e = lower t1) ctbl of
              None \<Rightarrow> Inr None
            | Some e \<Rightarrow>
                (case candidate_deserialize_follow_ups (entry_follow_ups e) of
                   Inl x \<Rightarrow> Inl x
                 | Inr F \<Rightarrow> Inr (Some \<lparr>answer_term = lower t1,
                                        answer_definition = entry_definition e,
                                        answer_follow_ups = F,
                                        answer_status = entry_status e\<rparr>)))
       \<and> candidate_exists ctbl t1 = (lower t1 \<in> entry_term ` set ctbl)
       \<and> candidate_delete ctbl t1 =
           (lower t1 \<in> entry_term ` set ctbl, filter (\<lambda>r. entry_term r \<noteq> lower t1) ctbl)
       \<and> candidate_get (candidate_save ctbl t1 d fs st) t1 =
           Some \<lparr>entry_term = lower t1, entry_definition = d,
                 entry_follow_ups = candidate_serialize_follow_ups fs, entry_status = st\<rparr>
       \<and> (\<forall>k. k \<noteq> lower t1 \<longrightarrow>
             find (\<lambda>e. entry_term e = k) (candidate_save ctbl t1 d fs st) =
             find (\<lambda>e. entry_term e = k) ctbl)
       \<and> candidate_get (candidate_reject ctbl t1 r) t1 =
           map_option (\<lambda>e. e\<lparr>entry_status := ''rejected: '' @ r\<rparr>) (candidate_get ctbl t1)
       \<and> (\<forall>k. k \<noteq> lower t1 \<longrightarrow>
             find (\<lambda>e. entry_term e = k) (candidate_reject ctbl t1 r) =
             find (\<lambda>e. entry_term e = k) ctbl))"
    (is "?same \<and> ?key")
proof -
  have "set (terminus_save tbl t1 d fs) \<subseteq>
            insert \<lparr>entry_term = lower t1, entry_definition = d,
                    entry_follow_ups = terminus_serialize_follow_ups fs\<rparr> (set tbl)"
    unfolding terminus_save_def by (rule set_session_merge)
  moreover have "set (candidate_save ctbl t1 d fs st) \<subseteq>
            insert \<lparr>entry_term = lower t1, entry_definition = d,
                    entry_follow_ups = candidate_serialize_follow_ups fs,
                    entry_status = st\<rparr> (set ctbl)"
    unfolding candidate_save_def by (rule set_session_merge)
  moreover have "query_exists (terminus_save tbl t1 d fs) (lower t1)"
    using query_exists_session_merge [of "\<lparr>entry_term = lower t1, entry_definition = d,
                    entry_follow_ups = terminus_serialize_follow_ups fs\<rparr>" tbl]
    by (simp add: terminus_save_def)
  moreover have "query_exists (candidate_save ctbl t1 d fs st) (lower t1)"
    using query_exists_session_merge [of "\<lparr>entry_term = lower t1, entry_definition = d,
                    entry_follow_ups = candidate_serialize_follow_ups fs,
                    entry_status = st\<rparr>" ctbl]
    by (simp add: candidate_save_def)
  ultimately have same: ?same
    using assms
    by (simp add: terminus_get_def terminus_get_as_pydantic_def terminus_save_def
        terminus_delete_def terminus_exists_def candidate_get_def candidate_get_as_pydantic_def
        candidate_save_def candidate_delete_def candidate_exists_def candidate_reject_def
        lower_idem lower_no_upper)
  have g: "terminus_get tbl t1 = find (\<lambda>e. entry_term e = lower t1) tbl"
    "candidate_get ctbl t1 = find (\<lambda>e. entry_term e = lower t1) ctbl"
    by (simp_all add: terminus_get_def candidate_get_def query_first_def)
  have x: "terminus_exists tbl t1 = (lower t1 \<in> entry_term ` set tbl)"
    "candidate_exists ctbl t1 = (lower t1 \<in> entry_term ` set ctbl)"
    by (simp_all add: terminus_exists_def candidate_exists_def query_exists_image)
  have key: ?key
    by (intro conjI allI impI)
       (rule g x terminus_get_as_pydantic_addresses_key candidate_get_as_pydantic_addresses_key
          terminus_delete_addresses_key candidate_delete_addresses_key
          terminus_save_addresses_key candidate_save_addresses_key
          candidate_reject_addresses_key; assumption?)+
  from same key show ?thesis ..
qed

theorem store_keys_lowercased_witness:
  "lower ''GDP'' = lower ''Gdp''
   \<and> terminus_get [\<lparr>entry_term = ''gdp'', entry_definition = ''d'', entry_follow_ups = None\<rparr>] ''GDP''
     = terminus_get [\<lparr>entry_term = ''gdp'', entry_definition = ''d'', entry_follow_ups = None\<rparr>] ''Gdp''
   \<and> candidate_save [] ''GDP'' ''d'' [] ''pending'' = candidate_save [] ''Gdp'' ''d'' [] ''pending''
   \<and> query_exists (candidate_save [] ''GDP'' ''d'' [] ''pending'') ''gdp''
   \<and> terminus_delete [\<lparr>entry_term = ''gdp'', entry_definition = ''d'', entry_follow_ups = None\<rparr>] ''GDP''
     = (True, [])"
proof -
  have h: "lower ''GDP'' = lower ''Gdp''" by (simp add: lower_GDP lower_Gdp)
  note w = store_keys_lowercased [OF h,
        of "[\<lparr>entry_term = ''gdp'', entry_definition = ''d'', entry_follow_ups = None\<rparr>]"
           "''d''" "[]" "[]" "''pending''" "''r''"]
  have a: "terminus_get [\<lparr>entry_term = ''gdp'', entry_definition = ''d'', entry_follow_ups = None\<rparr>] ''GDP''
     = terminus_get [\<lparr>entry_term = ''gdp'', entry_definition = ''d'', entry_follow_ups = None\<rparr>] ''Gdp''"
    using w by (elim conjE) assumption
  have b: "candidate_save [] ''GDP'' ''d'' [] ''pending'' = candidate_save [] ''Gdp'' ''d'' [] ''pending''"
    using w by (elim conjE) assumption
  have "query_exists (candidate_save [] ''GDP'' ''d'' [] ''pending'') (lower ''GDP'')"
    using w by (elim conjE) assumption
  then have c: "query_exists (candidate_save [] ''GDP'' ''d'' [] ''pending'') ''gdp''"
    by (simp add: lower_GDP)
  have "terminus_delete [\<lparr>entry_term = ''gdp'', entry_definition = ''d'', entry_follow_ups = None\<rparr>] ''GDP''
     = (lower ''GDP'' \<in> entry_term ` set [\<lparr>entry_term = ''gdp'', entry_definition = ''d'', entry_follow_ups = None\<rparr>],
        filter (\<lambda>r. entry_term r \<noteq> lower ''GDP'')
          [\<lparr>entry_term = ''gdp'', entry_definition = ''d'', entry_follow_ups = None\<rparr>])"
    using w by (elim conjE) assumption
  then have e: "terminus_delete [\<lparr>entry_term = ''gdp'', entry_definition = ''d'', entry_follow_ups = None\<rparr>] ''GDP''
     = (True, [])"
    by (simp add: lower_GDP)
  from h a b c e show ?thesis by (intro conjI)
qed

text \<open>
  C3 (as amended).  Every Term Store and Candidate Store operation (get, save,
  delete, exists) normalizes the key in the same way, by lowercasing only: each
  operation applied to a term behaves as applied to the lowercased term.
  Surrounding whitespace is not trimmed by any of them: for a term that \<open>strip\<close>
  changes, each operation tells the term from its trimmed form (a row stored under
  the lowercased term is found, reported and deleted with the term and not with the
  trimmed term, and a row saved with the term is not found with the trimmed term).
\<close>

theorem store_ops_normalize_by_lower:
  "(terminus_get tbl t = terminus_get tbl (lower t)
    \<and> terminus_save tbl t d fs = terminus_save tbl (lower t) d fs
    \<and> terminus_delete tbl t = terminus_delete tbl (lower t)
    \<and> terminus_exists tbl t = terminus_exists tbl (lower t)
    \<and> candidate_get ctbl t = candidate_get ctbl (lower t)
    \<and> candidate_save ctbl t d fs st = candidate_save ctbl (lower t) d fs st
    \<and> candidate_delete ctbl t = candidate_delete ctbl (lower t)
    \<and> candidate_exists ctbl t = candidate_exists ctbl (lower t))
   \<and> (strip t \<noteq> t \<longrightarrow>
        (let row = \<lparr>entry_term = lower t, entry_definition = d, entry_follow_ups = c\<rparr>;
             crow = \<lparr>entry_term = lower t, entry_definition = d, entry_follow_ups = c,
                     entry_status = st\<rparr>
         in terminus_get [row] t = Some row \<and> terminus_get [row] (strip t) = None
          \<and> terminus_exists [row] t \<and> \<not> terminus_exists [row] (strip t)
          \<and> terminus_delete [row] t = (True, [])
          \<and> terminus_delete [row] (strip t) = (False, [row])
          \<and> terminus_get (terminus_save [] t d fs) t \<noteq> None
          \<and> terminus_get (terminus_save [] t d fs) (strip t) = None
          \<and> terminus_save [] t d fs \<noteq> terminus_save [] (strip t) d fs
          \<and> candidate_get [crow] t = Some crow \<and> candidate_get [crow] (strip t) = None
          \<and> candidate_exists [crow] t \<and> \<not> candidate_exists [crow] (strip t)
          \<and> candidate_delete [crow] t = (True, [])
          \<and> candidate_delete [crow] (strip t) = (False, [crow])
          \<and> candidate_get (candidate_save [] t d fs st) t \<noteq> None
          \<and> candidate_get (candidate_save [] t d fs st) (strip t) = None
          \<and> candidate_save [] t d fs st \<noteq> candidate_save [] (strip t) d fs st))"
  (is "?lower \<and> (_ \<longrightarrow> ?notrim)")
proof -
  have l: ?lower
    by (simp add: terminus_get_def terminus_save_def terminus_delete_def terminus_exists_def
      candidate_get_def candidate_save_def candidate_delete_def candidate_exists_def lower_idem)
  have n: ?notrim if "strip t \<noteq> t"
  proof -
    from that have "lower (strip t) \<noteq> lower t" by (rule lower_strip_differs)
    then have "lower (strip t) \<noteq> lower t" "lower t \<noteq> lower (strip t)" by auto
    then show ?thesis
      by (simp add: Let_def terminus_get_def terminus_exists_def terminus_delete_def
          terminus_save_def candidate_get_def candidate_exists_def candidate_delete_def
          candidate_save_def query_first_def query_exists_def session_merge_def
          session_delete_def)
  qed
  from l n show ?thesis by blast
qed

theorem store_ops_normalize_by_lower_witness:
  "strip '' gdp'' \<noteq> '' gdp''
   \<and> candidate_exists [\<lparr>entry_term = '' gdp'', entry_definition = ''d'',
                         entry_follow_ups = None, entry_status = ''pending''\<rparr>] '' gdp''
   \<and> \<not> candidate_exists [\<lparr>entry_term = '' gdp'', entry_definition = ''d'',
                         entry_follow_ups = None, entry_status = ''pending''\<rparr>] (strip '' gdp'')
   \<and> terminus_delete [\<lparr>entry_term = '' gdp'', entry_definition = ''d'',
                        entry_follow_ups = None\<rparr>] (strip '' gdp'') =
       (False, [\<lparr>entry_term = '' gdp'', entry_definition = ''d'', entry_follow_ups = None\<rparr>])
   \<and> terminus_get (terminus_save [] '' gdp'' ''d'' []) (strip '' gdp'') = None"
proof -
  have h: "strip '' gdp'' \<noteq> '' gdp''" by (simp add: strip_sp_gdp)
  show ?thesis
    using h store_ops_normalize_by_lower [of "[]" "'' gdp''" "''d''" "[]" "[]" "''pending''" None]
    by (simp add: Let_def lower_sp_gdp)
qed

text \<open>
  C3 (as stated) fails: with the row \<open>gdp\<close> stored, \<open>get\<close> of the term with a
  leading blank finds nothing, while \<open>get\<close> of the trimmed and lowercased term
  finds the row.
\<close>

theorem store_ops_do_not_trim:
  "terminus_get [\<lparr>entry_term = ''gdp'', entry_definition = ''d'', entry_follow_ups = None\<rparr>] '' gdp''
     \<noteq> terminus_get [\<lparr>entry_term = ''gdp'', entry_definition = ''d'', entry_follow_ups = None\<rparr>]
          (lower (strip '' gdp''))"
  by (simp add: terminus_get_def query_first_def strip_sp_gdp lower_gdp lower_sp_gdp)

section \<open>Claims about term extraction\<close>

lemma critique_term_iff:
  "critique_term env i t \<longleftrightarrow> (\<exists>c. critique_client env i t = Inr (Some c) \<and> is_relevant c)"
  by (auto simp: critique_term_def split: sum.splits option.splits)

lemma critique_loop_filter:
  "critique_loop env i ts validated =
     validated @ map snd (filter (\<lambda>(j, t). critique_term env j t) (enumerate i ts))"
  by (induction ts arbitrary: i validated) simp_all

text \<open>
  C8.  When phase 1 returns candidate terms, \<open>validate_terms\<close> returns exactly those of
  them whose own critique request succeeds and reports relevant, in the order of
  phase 1 and with repetitions kept; a critique request that raises counts as not
  relevant, and the result is a list, never an error.
\<close>

theorem validate_terms_filters_in_order:
  assumes "extraction_client env txt = Inr (Some r)"
  shows "validate_terms env txt =
           Inr (map snd (filter (\<lambda>(i, t). \<exists>c. critique_client env i t = Inr (Some c) \<and> is_relevant c)
                  (enumerate 0 (map extracted_term (terms r)))))
         \<and> (\<forall>i t e. critique_client env i t = Inl e \<longrightarrow> \<not> critique_term env i t)"
  using assms
  by (simp add: validate_terms_def critique_loop_filter critique_term_iff)

theorem validate_terms_filters_in_order_witness:
  "validate_terms env8 ''text'' = Inr [''inflation'', ''inflation'']"
proof -
  have h: "extraction_client env8 ''text'' = Inr (Some \<lparr>terms =
              [\<lparr>extracted_term = ''inflation''\<rparr>, \<lparr>extracted_term = ''the''\<rparr>,
               \<lparr>extracted_term = ''inflation''\<rparr>, \<lparr>extracted_term = ''bond''\<rparr>]\<rparr>)"
    by (simp add: env8_def)
  show ?thesis
    using validate_terms_filters_in_order [OF h]
    by (simp add: env8_def)
qed

section \<open>Claims about the background task\<close>

text \<open>
  C2.  For a term that, normalized as the task normalizes it, is present in the Term
  Store or in the Candidate Store, the resolution workflow returns the state it was
  given: both stores are unchanged and the trace is unchanged, so no collaborator was
  called and nothing was written, whatever the environment.
\<close>

theorem resolution_short_circuit:
  assumes "terminus_exists (terminus w) (lower (strip t))
           \<or> candidate_exists (candidate w) (lower (strip t))"
  shows "fetch_validate_and_store_definition env t w = w
         \<and> terminus (fetch_validate_and_store_definition env t w) = terminus w
         \<and> candidate (fetch_validate_and_store_definition env t w) = candidate w
         \<and> trace (fetch_validate_and_store_definition env t w) = trace w"
proof -
  have "fetch_validate_and_store_definition env t w = w"
    using assms by (auto simp: fetch_validate_and_store_definition_def Let_def)
  then show ?thesis by simp
qed

theorem resolution_short_circuit_witness:
  "fetch_validate_and_store_definition env7 '' GDP '' w_gdp = w_gdp"
proof -
  have "terminus_exists (terminus w_gdp) (lower (strip '' GDP ''))"
    by (simp add: strip_lower_GDP w_gdp_def terminus_exists_def query_exists_def lower_gdp)
  then show ?thesis
    using resolution_short_circuit [of w_gdp "'' GDP ''" env7] by simp
qed

lemma validate_definition_never_raises: "validate_definition env t s \<noteq> Inl e"
  by (cases "validation_client env t s" rule: generate_response.cases)
     (auto simp: validate_definition_def split: option.splits)

lemma validate_definition_connection_error:
  "validation_client env t s = Inl (APIConnectionError m) \<Longrightarrow> validate_definition env t s = Inr None"
  by (simp add: validate_definition_def)

text \<open>
  C6 (as amended).  If the request of the validation service fails with a connection
  error, \<open>validate_definition\<close> returns \<open>None\<close>, and the workflow writes a
  Candidate Store entry for the term with the status
  \<open>validation_failed: LLM returned no result\<close> and stops: the Term Store is
  unchanged and the trace holds no Term Store write.
\<close>

theorem transport_failure_recorded_as_validation_failed:
  assumes "\<not> terminus_exists (terminus w) (lower (strip t))"
    and "\<not> candidate_exists (candidate w) (lower (strip t))"
    and "wikipedia env (lower (strip t)) = Inr s"
    and "\<not> startswith s ''Could not find''"
    and "\<not> startswith s ''An error occurred''"
    and "\<not> startswith s ''Please provide''"
    and "validation_client env (lower (strip t)) s = Inl (APIConnectionError m)"
    and "commit env (CandidateSave (lower (strip t)) s []
            ''validation_failed: LLM returned no result'') = None"
  shows "candidate (fetch_validate_and_store_definition env t w) =
           candidate_save (candidate w) (lower (strip t)) s []
             ''validation_failed: LLM returned no result''
         \<and> candidate_get_as_pydantic (candidate (fetch_validate_and_store_definition env t w))
               (lower (strip t)) =
             Inr (Some \<lparr>answer_term = lower (strip t), answer_definition = s,
                        answer_follow_ups = [],
                        answer_status = ''validation_failed: LLM returned no result''\<rparr>)
         \<and> terminus (fetch_validate_and_store_definition env t w) = terminus w
         \<and> trace (fetch_validate_and_store_definition env t w) =
             trace w @ [WikipediaQuery (lower (strip t)),
                        ValidateDefinition (lower (strip t)) s,
                        CandidateSave (lower (strip t)) s []
                          ''validation_failed: LLM returned no result'']"
proof -
  let ?t = "lower (strip t)"
  let ?st = "''validation_failed: LLM returned no result''"
  have v: "validate_definition env ?t s = Inr None"
    using assms(7) by (rule validate_definition_connection_error)
  have run: "fetch_validate_and_store_definition env t w =
          log_event (CandidateSave ?t s [] ?st)
            ((log_event (ValidateDefinition ?t s) (log_event (WikipediaQuery ?t) w))
               \<lparr>candidate := candidate_save (candidate w) ?t s [] ?st\<rparr>)"
    using assms v
    by (simp add: fetch_validate_and_store_definition_def Let_def do_candidate_save_def
        log_event_def)
  have g: "candidate_get_as_pydantic (candidate_save (candidate w) ?t s [] ?st) ?t =
             Inr (Some \<lparr>answer_term = ?t, answer_definition = s, answer_follow_ups = [],
                        answer_status = ?st\<rparr>)"
    using candidate_get_as_pydantic_save [of "candidate w" ?t s "[]" ?st]
    by (simp add: lower_idem)
  show ?thesis
    unfolding run using g by (simp add: log_event_def)
qed

theorem transport_failure_recorded_as_validation_failed_witness:
  "candidate (fetch_validate_and_store_definition env6 ''gdp'' w0) =
     [\<lparr>entry_term = ''gdp'', entry_definition = gdp_summary,
       entry_follow_ups = Some (Encoded (JList [])),
       entry_status = ''validation_failed: LLM returned no result''\<rparr>]
   \<and> terminus (fetch_validate_and_store_definition env6 ''gdp'' w0) = []"
proof -
  have n: "lower (strip ''gdp'') = ''gdp''" by (simp add: strip_gdp lower_gdp)
  have "candidate (fetch_validate_and_store_definition env6 ''gdp'' w0) =
           candidate_save (candidate w0) (lower (strip ''gdp'')) gdp_summary []
             ''validation_failed: LLM returned no result''
        \<and> terminus (fetch_validate_and_store_definition env6 ''gdp'' w0) = terminus w0"
    using transport_failure_recorded_as_validation_failed
            [of w0 "''gdp''" env6 gdp_summary "''connection refused''"]
    by (simp add: n w0_def env6_def gdp_summary_usable terminus_exists_def candidate_exists_def
        query_exists_def)
  then show ?thesis
    by (simp add: n w0_def candidate_save_def session_merge_def lower_gdp
        candidate_serialize_follow_ups_def json_dumps_def)
qed

text \<open>
  C6 (as stated) fails: with a validation client that raises a connection error, the
  status written does not begin with \<open>validation_error:\<close>.
\<close>

theorem transport_failure_status_counterexample:
  "map entry_status (candidate (fetch_validate_and_store_definition env6 ''gdp'' w0)) =
     [''validation_failed: LLM returned no result'']
   \<and> \<not> startswith ''validation_failed: LLM returned no result'' ''validation_error:''"
proof -
  have n: "lower (strip ''gdp'') = ''gdp''" by (simp add: strip_gdp lower_gdp)
  have "validate_definition env6 ''gdp'' gdp_summary = Inr None"
    by (simp add: validate_definition_def env6_def)
  then have "candidate (fetch_validate_and_store_definition env6 ''gdp'' w0) =
     [\<lparr>entry_term = ''gdp'', entry_definition = gdp_summary,
       entry_follow_ups = Some (Encoded (JList [])),
       entry_status = ''validation_failed: LLM returned no result''\<rparr>]"
    by (simp add: fetch_validate_and_store_definition_def Let_def n w0_def env6_def
        gdp_summary_usable terminus_exists_def candidate_exists_def query_exists_def
        do_candidate_save_def log_event_def candidate_save_def session_merge_def lower_gdp
        candidate_serialize_follow_ups_def json_dumps_def)
  then show ?thesis
    by (simp add: status_not_validation_error)
qed

lemma follow_ups_to_save_raise: "follow_ups_to_save (generate_response (Inl e)) = []"
  by (cases e) (simp_all add: follow_ups_to_save_def)

lemma follow_ups_to_save_failure:
  assumes "(\<exists>e. followup_client env t s = Inl e)
           \<or> followup_client env t s = Inr None
           \<or> (\<exists>a. followup_client env t s = Inr (Some a) \<and> answer_follow_ups a = [])"
  shows "follow_ups_to_save (generate_followups env t s) = []"
  using assms
proof (elim disjE exE conjE)
  fix e assume "followup_client env t s = Inl e"
  then show ?thesis
    by (simp add: generate_followups_def follow_ups_to_save_raise)
next
  assume "followup_client env t s = Inr None"
  then show ?thesis
    by (simp add: generate_followups_def follow_ups_to_save_def)
next
  fix a assume "followup_client env t s = Inr (Some a)" "answer_follow_ups a = []"
  then show ?thesis
    by (simp add: generate_followups_def follow_ups_to_save_def)
qed

text \<open>
  C7.  When the definition passes validation and the follow-up generation fails (the
  request raises, the answer is \<open>None\<close>, or the answer has no follow-ups), the
  workflow still writes the term with the validated definition and an empty
  follow-up list to the Term Store: the write is issued, and when its commit
  succeeds the Term Store holds that entry and the Candidate Store is unchanged.
\<close>

theorem enrichment_failure_keeps_definition:
  assumes "\<not> terminus_exists (terminus w) (lower (strip t))"
    and "\<not> candidate_exists (candidate w) (lower (strip t))"
    and "wikipedia env (lower (strip t)) = Inr s"
    and "\<not> startswith s ''Could not find''"
    and "\<not> startswith s ''An error occurred''"
    and "\<not> startswith s ''Please provide''"
    and "validate_definition env (lower (strip t)) s = Inr (Some v)"
    and "is_valid v"
    and "(\<exists>e. followup_client env (lower (strip t)) s = Inl e)
         \<or> followup_client env (lower (strip t)) s = Inr None
         \<or> (\<exists>a. followup_client env (lower (strip t)) s = Inr (Some a)
                  \<and> answer_follow_ups a = [])"
  shows "(\<exists>rest. trace (fetch_validate_and_store_definition env t w) =
             trace w @ [WikipediaQuery (lower (strip t)),
                        ValidateDefinition (lower (strip t)) s,
                        GenerateFollowups (lower (strip t)) s,
                        TerminusSave (lower (strip t)) s []] @ rest)
         \<and> (commit env (TerminusSave (lower (strip t)) s []) = None \<longrightarrow>
              terminus (fetch_validate_and_store_definition env t w) =
                terminus_save (terminus w) (lower (strip t)) s []
              \<and> terminus_get_as_pydantic (terminus (fetch_validate_and_store_definition env t w))
                    (lower (strip t)) =
                  Inr (Some \<lparr>answer_term = lower (strip t), answer_definition = s,
                             answer_follow_ups = []\<rparr>)
              \<and> candidate (fetch_validate_and_store_definition env t w) = candidate w)"
proof -
  let ?t = "lower (strip t)"
  let ?w3 = "log_event (GenerateFollowups ?t s)
               (log_event (ValidateDefinition ?t s) (log_event (WikipediaQuery ?t) w))"
  have f: "follow_ups_to_save (generate_followups env ?t s) = []"
    using assms(9) by (rule follow_ups_to_save_failure)
  have run: "fetch_validate_and_store_definition env t w =
          (case do_terminus_save env ?t s [] ?w3 of
             (None, w4) \<Rightarrow> w4
           | (Some e, w4) \<Rightarrow>
               snd (do_candidate_save env ?t s []
                      (''save_to_official_error: '' @ take 200 (str_exn e)) w4))"
    using assms(1-8) f
    by (simp add: fetch_validate_and_store_definition_def Let_def)
  have g: "terminus_get_as_pydantic (terminus_save (terminus w) ?t s []) ?t =
             Inr (Some \<lparr>answer_term = ?t, answer_definition = s, answer_follow_ups = []\<rparr>)"
    using terminus_get_as_pydantic_save [of "terminus w" ?t s "[]"]
    by (simp add: lower_idem)
  show ?thesis
  proof (cases "commit env (TerminusSave ?t s [])")
    case None
    then show ?thesis
      unfolding run using g
      by (simp add: do_terminus_save_def log_event_def)
  next
    case (Some e)
    then show ?thesis
      unfolding run
      by (simp add: do_terminus_save_def do_candidate_save_def log_event_def split: option.splits)
  qed
qed

theorem enrichment_failure_keeps_definition_witness:
  "terminus (fetch_validate_and_store_definition env7 ''gdp'' w0) =
     [\<lparr>entry_term = ''gdp'', entry_definition = gdp_summary,
       entry_follow_ups = Some (Encoded (JList []))\<rparr>]
   \<and> candidate (fetch_validate_and_store_definition env7 ''gdp'' w0) = []"
proof -
  have n: "lower (strip ''gdp'') = ''gdp''" by (simp add: strip_gdp lower_gdp)
  have v: "validate_definition env7 ''gdp'' gdp_summary =
             Inr (Some \<lparr>is_valid = True, reasoning = ''accurate''\<rparr>)"
    by (simp add: validate_definition_def env7_def gdp_summary_usable)
  have "terminus (fetch_validate_and_store_definition env7 ''gdp'' w0) =
           terminus_save (terminus w0) (lower (strip ''gdp'')) gdp_summary []
        \<and> candidate (fetch_validate_and_store_definition env7 ''gdp'' w0) = candidate w0"
    using enrichment_failure_keeps_definition
            [of w0 "''gdp''" env7 gdp_summary "\<lparr>is_valid = True, reasoning = ''accurate''\<rparr>"] v
    by (simp add: n w0_def env7_def gdp_summary_usable terminus_exists_def candidate_exists_def
        query_exists_def)
  then show ?thesis
    by (simp add: n w0_def terminus_save_def session_merge_def lower_gdp
        terminus_serialize_follow_ups_def json_dumps_def)
qed

section \<open>Claims about promotion\<close>

lemma lower_Inflation: "lower ''Inflation'' = ''inflation''"
  by code_simp

lemma lower_inflation: "lower ''inflation'' = ''inflation''"
  by code_simp

lemma inflation_row_found: "candidate_get (candidate w_cand) ''Inflation'' = Some inflation_row"
  by (simp add: candidate_get_def query_first_def w_cand_def inflation_row_def lower_Inflation)

lemma inflation_row_follow_ups:
  "candidate_deserialize_follow_ups (entry_follow_ups inflation_row) = Inr [fu_cpi]"
  by (simp add: candidate_deserialize_follow_ups_def inflation_row_def FollowUp_of_model_dump
      del: FollowUp_of.simps)

lemma candidate_get_term: "candidate_get tbl t = Some c \<Longrightarrow> entry_term c = lower t"
  unfolding candidate_get_def by (rule query_first_term)

text \<open>
  C1.  Promotion round-trip.  For a Candidate Store entry found under the term, with
  definition \<open>D\<close> and follow-ups \<open>F\<close> (what its \<open>follow_ups\<close> field
  deserializes to), approving it, with both commits succeeding, returns the official
  entry with the lowercased term, \<open>D\<close> and \<open>F\<close>; the Term Store then holds
  exactly that entry for the term, the Candidate Store holds none, and the writes are
  the Term Store save followed by the Candidate Store delete.
\<close>

theorem promotion_round_trip:
  assumes "candidate_get (candidate w) t = Some c"
    and "candidate_deserialize_follow_ups (entry_follow_ups c) = Inr F"
    and "validation_term v = t"
    and "validation_approve v"
    and "commit env (TerminusSave (lower t) (entry_definition c) (map Model F)) = None"
    and "commit env (CandidateDelete (lower t)) = None"
  shows "fst (validate_candidate env v w) =
           Inr \<lparr>answer_term = lower t, answer_definition = entry_definition c,
                answer_follow_ups = F\<rparr>
         \<and> terminus_get_as_pydantic (terminus (snd (validate_candidate env v w))) t =
             Inr (Some \<lparr>answer_term = lower t, answer_definition = entry_definition c,
                        answer_follow_ups = F\<rparr>)
         \<and> candidate_get (candidate (snd (validate_candidate env v w))) t = None
         \<and> \<not> candidate_exists (candidate (snd (validate_candidate env v w))) t
         \<and> trace (snd (validate_candidate env v w)) =
             trace w @ [TerminusSave (lower t) (entry_definition c) (map Model F),
                        CandidateDelete (lower t)]"
proof -
  let ?k = "lower t"
  let ?d = "entry_definition c"
  let ?ts = "terminus_save (terminus w) ?k ?d (map Model F)"
  let ?cs = "session_delete c (candidate w)"
  let ?a = "\<lparr>answer_term = ?k, answer_definition = ?d, answer_follow_ups = F\<rparr>"
  have k: "entry_term c = ?k"
    using assms(1) by (rule candidate_get_term)
  have c1: "candidate_get (candidate w) ?k = Some c"
    using assms(1) by (simp add: candidate_get_def lower_idem)
  have g: "terminus_get_as_pydantic ?ts ?k = Inr (Some ?a)"
    using terminus_get_as_pydantic_save [of "terminus w" ?k ?d F] by (simp add: lower_idem)
  have g': "terminus_get_as_pydantic ?ts t = Inr (Some ?a)"
    using g by (simp add: terminus_get_as_pydantic_def lower_idem)
  have del: "do_candidate_delete env ?k
               (log_event (TerminusSave ?k ?d (map Model F)) (w\<lparr>terminus := ?ts\<rparr>)) =
             (Inr True, log_event (CandidateDelete ?k)
                (log_event (TerminusSave ?k ?d (map Model F))
                   (w\<lparr>terminus := ?ts, candidate := ?cs\<rparr>)))"
    using c1 assms(6)
    by (simp add: do_candidate_delete_def log_event_def candidate_delete_def candidate_get_def)
  have run: "validate_candidate env v w =
          (Inr ?a, log_event (CandidateDelete ?k)
                (log_event (TerminusSave ?k ?d (map Model F))
                   (w\<lparr>terminus := ?ts, candidate := ?cs\<rparr>)))"
    using assms(1-5) k del g
    by (simp add: validate_candidate_def do_terminus_save_def log_event_def)
  have gone: "candidate_get ?cs t = None"
    using query_first_session_delete_same [of c "candidate w"] k
    by (simp add: candidate_get_def)
  then have gone': "\<not> candidate_exists ?cs t"
    by (simp add: candidate_exists_def candidate_get_def query_exists_iff)
  show ?thesis
    unfolding run using g' gone gone' by (simp add: log_event_def)
qed

theorem promotion_round_trip_witness:
  "fst (validate_candidate env7 approve_inflation w_cand) =
     Inr \<lparr>answer_term = ''inflation'', answer_definition = ''A general rise in prices.'',
          answer_follow_ups = [fu_cpi]\<rparr>
   \<and> candidate_get (candidate (snd (validate_candidate env7 approve_inflation w_cand)))
        ''Inflation'' = None
   \<and> trace (snd (validate_candidate env7 approve_inflation w_cand)) =
        [TerminusSave ''inflation'' ''A general rise in prices.'' [Model fu_cpi],
         CandidateDelete ''inflation'']"
proof -
  have v: "validation_term approve_inflation = ''Inflation''" "validation_approve approve_inflation"
    by (simp_all add: approve_inflation_def)
  have c: "commit env7 (TerminusSave (lower ''Inflation'') (entry_definition inflation_row)
             (map Model [fu_cpi])) = None"
    "commit env7 (CandidateDelete (lower ''Inflation'')) = None"
    by (simp_all add: env7_def)
  show ?thesis
    using promotion_round_trip [OF inflation_row_found inflation_row_follow_ups v c]
    by (simp add: lower_Inflation inflation_row_def w_cand_def)
qed

lemma query_exists_session_delete:
  "query_exists (session_delete e tbl) k \<longleftrightarrow> query_exists tbl k \<and> k \<noteq> entry_term e"
  by (auto simp: query_exists_def session_delete_def list_ex_iff)

lemma query_exists_terms: "query_exists tbl k \<longleftrightarrow> k \<in> set (map entry_term tbl)"
  by (auto simp: query_exists_def list_ex_iff)

lemma replace_terms:
  "map entry_term (map (\<lambda>r. if entry_term r = entry_term e then e else r) tbl) = map entry_term tbl"
  by (induction tbl) simp_all

lemma query_exists_session_merge_iff:
  "query_exists (session_merge e tbl) k \<longleftrightarrow> query_exists tbl k \<or> k = entry_term e"
proof (cases "list_ex (\<lambda>r. entry_term r = entry_term e) tbl")
  case True
  then have "query_exists tbl (entry_term e)" by (simp add: query_exists_def)
  moreover have "query_exists (session_merge e tbl) k \<longleftrightarrow> query_exists tbl k"
    using True replace_terms [of e tbl]
    by (simp only: query_exists_terms session_merge_def if_True)
  ultimately show ?thesis by auto
next
  case False
  then show ?thesis by (auto simp: query_exists_def session_merge_def)
qed

lemma candidate_reject_exists:
  "candidate_exists (candidate_reject tbl t reason) t' = candidate_exists tbl t'"
proof (cases "query_first tbl (lower t)")
  case None
  then show ?thesis by (simp add: candidate_reject_def)
next
  case (Some c)
  then have "entry_term c = lower t" by (rule query_first_term)
  moreover from Some have "query_exists tbl (lower t)" by (simp add: query_exists_iff)
  ultimately show ?thesis
    using Some by (auto simp: candidate_reject_def candidate_exists_def query_exists_session_merge_iff)
qed

lemma do_candidate_reject_exists:
  "candidate_exists (candidate (snd (do_candidate_reject env t reason w))) t' =
     candidate_exists (candidate w) t'"
  by (simp add: do_candidate_reject_def log_event_def candidate_reject_exists
      split: option.splits)

lemma do_candidate_reject_terminus:
  "terminus (snd (do_candidate_reject env t reason w)) = terminus w"
  by (simp add: do_candidate_reject_def log_event_def split: option.splits)

lemma do_candidate_delete_terminus:
  "terminus (snd (do_candidate_delete env k w)) = terminus w"
  by (simp add: do_candidate_delete_def log_event_def split: option.splits)

lemma do_candidate_delete_exists:
  assumes "candidate_exists (candidate w) t'"
    and "\<not> candidate_exists (candidate (snd (do_candidate_delete env k w))) t'"
  shows "lower t' = lower k"
proof (cases "candidate_get (candidate w) k")
  case None
  with assms show ?thesis by (simp add: do_candidate_delete_def)
next
  case (Some c)
  then have "entry_term c = lower k" by (rule candidate_get_term)
  with assms Some show ?thesis
    by (auto simp: do_candidate_delete_def log_event_def candidate_delete_def candidate_get_def
        candidate_exists_def query_exists_session_delete split: option.splits)
qed

lemma terminus_exists_save: "terminus_exists (terminus_save tbl k d fs) t \<longleftrightarrow>
    terminus_exists tbl t \<or> lower t = lower k"
  by (simp add: terminus_exists_def terminus_save_def query_exists_session_merge_iff)

lemma promotion_keeps_term:
  assumes "candidate_exists (candidate w) t"
    and "\<not> candidate_exists (candidate (snd (validate_candidate env v w))) t"
  shows "terminus_exists (terminus (snd (validate_candidate env v w))) t"
proof (cases "candidate_get (candidate w) (validation_term v)")
  case None
  with assms show ?thesis by (simp add: validate_candidate_def)
next
  case (Some c)
  show ?thesis
  proof (cases "validation_approve v")
    case False
    have "snd (validate_candidate env v w) =
            snd (do_candidate_reject env (validation_term v) ''Disapproved by user'' w)"
      using Some False by (simp add: validate_candidate_def split: prod.splits option.splits)
    with assms show ?thesis by (simp add: do_candidate_reject_exists)
  next
    case True
    show ?thesis
    proof (cases "candidate_deserialize_follow_ups (entry_follow_ups c)")
      case (Inl e)
      with Some True assms show ?thesis by (simp add: validate_candidate_def)
    next
      case (Inr F)
      let ?ev = "TerminusSave (entry_term c) (entry_definition c) (map Model F)"
      show ?thesis
      proof (cases "commit env ?ev")
        case (Some e)
        with \<open>candidate_get (candidate w) (validation_term v) = Some c\<close> True Inr assms
        show ?thesis
          by (simp add: validate_candidate_def do_terminus_save_def log_event_def)
      next
        case None
        let ?w1 = "log_event ?ev (w\<lparr>terminus :=
                     terminus_save (terminus w) (entry_term c) (entry_definition c) (map Model F)\<rparr>)"
        have s: "snd (validate_candidate env v w) = snd (do_candidate_delete env (entry_term c) ?w1)"
          using \<open>candidate_get (candidate w) (validation_term v) = Some c\<close> True Inr None
          by (simp add: validate_candidate_def do_terminus_save_def
              split: prod.splits sum.splits option.splits)
        have c1: "candidate ?w1 = candidate w" by (simp add: log_event_def)
        have "lower t = lower (entry_term c)"
          using assms do_candidate_delete_exists [of ?w1 t env "entry_term c"]
          by (simp add: s c1)
        then show ?thesis
          by (simp add: s do_candidate_delete_terminus log_event_def terminus_exists_save)
      qed
    qed
  qed
qed

text \<open>
  C5.  Promotion failure.  If during approval the commit of the Term Store write
  raises, that exception is what the caller gets, and both stores are as before: the
  candidate entry is still there.  Moreover, for every environment, request and
  state, a term that was in the Candidate Store before \<open>validate_candidate\<close> and
  is not after it is in the Term Store after it.
\<close>

theorem promotion_failure_leaves_candidate:
  assumes "candidate_get (candidate w) (validation_term v) = Some c"
    and "validation_approve v"
    and "candidate_deserialize_follow_ups (entry_follow_ups c) = Inr F"
    and "commit env (TerminusSave (entry_term c) (entry_definition c) (map Model F)) = Some e"
  shows "fst (validate_candidate env v w) = Inl e
         \<and> candidate (snd (validate_candidate env v w)) = candidate w
         \<and> terminus (snd (validate_candidate env v w)) = terminus w
         \<and> candidate_get (candidate (snd (validate_candidate env v w))) (validation_term v) = Some c
         \<and> (\<forall>env' v' w' t. candidate_exists (candidate w') t
               \<and> \<not> candidate_exists (candidate (snd (validate_candidate env' v' w'))) t
               \<longrightarrow> terminus_exists (terminus (snd (validate_candidate env' v' w'))) t)"
proof -
  have "validate_candidate env v w =
          (Inl e, log_event (TerminusSave (entry_term c) (entry_definition c) (map Model F)) w)"
    using assms by (simp add: validate_candidate_def do_terminus_save_def)
  then show ?thesis
    using assms(1) promotion_keeps_term by (simp add: log_event_def)
qed

theorem promotion_failure_leaves_candidate_witness:
  "fst (validate_candidate env5 approve_inflation w_cand) =
     Inl (SQLAlchemyError ''database is locked'')
   \<and> candidate (snd (validate_candidate env5 approve_inflation w_cand)) = [inflation_row]
   \<and> terminus (snd (validate_candidate env5 approve_inflation w_cand)) = []"
proof -
  have f: "candidate_get (candidate w_cand) (validation_term approve_inflation) = Some inflation_row"
    using inflation_row_found by (simp add: approve_inflation_def)
  have a: "validation_approve approve_inflation"
    by (simp add: approve_inflation_def)
  have c: "commit env5 (TerminusSave (entry_term inflation_row) (entry_definition inflation_row)
             (map Model [fu_cpi])) = Some (SQLAlchemyError ''database is locked'')"
    by (simp add: env5_def)
  show ?thesis
    using promotion_failure_leaves_candidate [OF f a inflation_row_follow_ups c]
    by (simp add: w_cand_def)
qed

section \<open>Claims about the follow-up cap\<close>

text \<open>
  The routes \<open>create_candidate\<close> and \<open>precompute_terms\<close> build their follow-ups
  from the first three sub-terms, so every write they issue respects the cap.
\<close>

lemma create_follow_ups_length:
  "length (fst (create_follow_ups env ts follow_ups w)) \<le> length follow_ups + length ts"
proof (induction ts arbitrary: follow_ups w)
  case Nil
  then show ?case by simp
next
  case (Cons t ts)
  show ?case
    using Cons.IH [of "follow_ups @ [follow_up_dict t sub_def]" for sub_def]
      Cons.IH [of follow_ups]
    by (auto split: option.splits sum.splits intro: le_SucI order_trans)
qed

lemma log_event_capped:
  "list_all follow_ups_capped (trace (log_event ev w)) \<longleftrightarrow>
     list_all follow_ups_capped (trace w) \<and> follow_ups_capped ev"
  by (simp add: log_event_def)

lemma do_candidate_save_capped:
  "list_all follow_ups_capped (trace w) \<Longrightarrow> length follow_ups \<le> 3 \<Longrightarrow>
   list_all follow_ups_capped (trace (snd (do_candidate_save env t d follow_ups status w)))"
  by (simp add: do_candidate_save_def log_event_def split: option.splits)

lemma create_follow_ups_capped:
  "list_all follow_ups_capped (trace w) \<Longrightarrow>
   list_all follow_ups_capped (trace (snd (create_follow_ups env ts follow_ups w)))"
  by (induction ts arbitrary: follow_ups w)
     (auto simp: log_event_capped split: option.splits sum.splits)

lemma create_candidate_save_capped:
  assumes "create_follow_ups env (take 3 sub_terms) [] w1 = (fs, w2)"
    and "do_candidate_save env t d fs st w2 = (x, w3)"
    and "list_all follow_ups_capped (trace w1)"
  shows "list_all follow_ups_capped (trace w3)"
proof -
  have "length fs \<le> 3"
    using create_follow_ups_length [of env "take 3 sub_terms" "[]" w1] assms(1) by simp
  moreover have "list_all follow_ups_capped (trace w2)"
    using create_follow_ups_capped [OF assms(3), of env "take 3 sub_terms" "[]"] assms(1) by simp
  ultimately show ?thesis
    using do_candidate_save_capped [of w2 fs env t d st] assms(2) by simp
qed

lemma create_candidate_capped:
  assumes "list_all follow_ups_capped (trace w)"
  shows "list_all follow_ups_capped (trace (snd (create_candidate env entry w)))"
proof (cases "terminus_get (terminus w) (create_term entry) \<noteq> None
              \<or> candidate_get (candidate w) (create_term entry) \<noteq> None")
  case True
  with assms show ?thesis by (auto simp: create_candidate_def)
next
  case False
  obtain r1 w1 where d: "(if create_definition entry \<noteq> [] then (Inr (create_definition entry), w)
              else (wikipedia env (create_term entry),
                    log_event (WikipediaQuery (create_term entry)) w)) = (r1, w1)"
    by (cases "(if create_definition entry \<noteq> [] then (Inr (create_definition entry), w)
              else (wikipedia env (create_term entry),
                    log_event (WikipediaQuery (create_term entry)) w))")
  have w1: "list_all follow_ups_capped (trace w1)"
    using d assms by (auto simp: log_event_capped split: if_splits)
  show ?thesis
  proof (cases r1)
    case (Inl e)
    with False d w1 show ?thesis by (simp add: create_candidate_def)
  next
    case df: (Inr df)
    let ?w2 = "log_event (ExtractTerms df) w1"
    have w2: "list_all follow_ups_capped (trace ?w2)"
      using w1 by (simp add: log_event_capped)
    show ?thesis
    proof (cases "extract_terms_async env df")
      case (Inl e)
      with False d df w2 show ?thesis by (simp add: create_candidate_def)
    next
      case st: (Inr sub_terms)
      obtain fs w3 where c: "create_follow_ups env (take 3 sub_terms) [] ?w2 = (fs, w3)"
        by (cases "create_follow_ups env (take 3 sub_terms) [] ?w2")
      obtain x w4 where sv: "do_candidate_save env (create_term entry) df fs ''pending'' w3 = (x, w4)"
        by (cases "do_candidate_save env (create_term entry) df fs ''pending'' w3")
      have w4: "list_all follow_ups_capped (trace w4)"
        using c sv w2 by (rule create_candidate_save_capped)
      have "snd (create_candidate env entry w) = w4"
        using False d df st c sv
        by (simp add: create_candidate_def split: option.splits sum.splits)
      with w4 show ?thesis by simp
    qed
  qed
qed

lemma precompute_follow_ups_length:
  "precompute_follow_ups env t ts follow_ups w = (Inr fs, w') \<Longrightarrow>
   length fs \<le> length follow_ups + length ts"
proof (induction ts arbitrary: follow_ups w)
  case Nil
  then show ?case by simp
next
  case (Cons sub_term rest)
  show ?case
  proof (cases "lower sub_term = lower t")
    case True
    with Cons.prems Cons.IH [of follow_ups w] show ?thesis by simp
  next
    case False
    show ?thesis
    proof (cases "wikipedia env sub_term")
      case (Inl e)
      with False Cons.prems show ?thesis by simp
    next
      case (Inr sub_def)
      with False Cons.prems
        Cons.IH [of "follow_ups @ [follow_up_dict sub_term sub_def]"
                    "log_event (WikipediaQuery sub_term) w"]
      show ?thesis by simp
    qed
  qed
qed

lemma precompute_follow_ups_capped:
  "list_all follow_ups_capped (trace w) \<Longrightarrow>
   list_all follow_ups_capped (trace (snd (precompute_follow_ups env t ts follow_ups w)))"
  by (induction ts arbitrary: follow_ups w)
     (auto simp: log_event_capped split: sum.splits)

lemma precompute_loop_capped:
  "list_all follow_ups_capped (trace w) \<Longrightarrow>
   list_all follow_ups_capped (trace (snd (precompute_loop env ts added_terms w)))"
proof (induction ts arbitrary: added_terms w)
  case Nil
  then show ?case by simp
next
  case (Cons t rest)
  show ?case
  proof (cases "terminus_get (terminus w) t \<noteq> None \<or> candidate_get (candidate w) t \<noteq> None")
    case True
    with Cons show ?thesis by auto
  next
    case False
    show ?thesis
    proof (cases "wikipedia env t")
      case (Inl e)
      with False Cons.prems show ?thesis by (simp add: log_event_capped)
    next
      case d: (Inr d)
      let ?w1 = "log_event (ExtractTerms d) (log_event (WikipediaQuery t) w)"
      have w1: "list_all follow_ups_capped (trace ?w1)"
        using Cons.prems by (simp add: log_event_capped)
      show ?thesis
      proof (cases "extract_terms_async env d")
        case (Inl e)
        with False d w1 show ?thesis by simp
      next
        case r: (Inr related_terms)
        obtain res w2 where p: "precompute_follow_ups env t (take 3 related_terms) [] ?w1 = (res, w2)"
          by (cases "precompute_follow_ups env t (take 3 related_terms) [] ?w1")
        have w2: "list_all follow_ups_capped (trace w2)"
          using precompute_follow_ups_capped [OF w1, of env t "take 3 related_terms" "[]"] p
          by simp
        show ?thesis
        proof (cases res)
          case (Inl e)
          with False d r p w2 show ?thesis by simp
        next
          case fs: (Inr follow_ups)
          have "length follow_ups \<le> 3"
            using precompute_follow_ups_length [of env t "take 3 related_terms" "[]" ?w1 follow_ups w2]
              p fs by simp
          then have w3: "list_all follow_ups_capped
                       (trace (snd (do_candidate_save env t d follow_ups ''pending'' w2)))"
            by (rule do_candidate_save_capped [OF w2])
          show ?thesis
          proof (cases "do_candidate_save env t d follow_ups ''pending'' w2")
            case (Pair x w3')
            with w3 have "list_all follow_ups_capped (trace w3')" by simp
            with Pair False d r p fs Cons.IH [of w3' "added_terms @ [t]"] show ?thesis
              by (cases x) simp_all
          qed
        qed
      qed
    qed
  qed
qed

lemma precompute_terms_capped:
  "list_all follow_ups_capped (trace w) \<Longrightarrow>
   list_all follow_ups_capped (trace (snd (precompute_terms env txt w)))"
  by (auto simp: precompute_terms_def log_event_capped precompute_loop_capped split: sum.splits)

text \<open>
  C4.  The background task does not cut the follow-ups it gets from the follow-up
  service: when the service answers with four follow-ups for a validated definition,
  the Term Store entry written has four follow-ups, and the trace, which respected
  the cap before, does not respect it after.
\<close>

theorem workflow_persists_uncapped_follow_ups:
  "terminus_get_as_pydantic (terminus (fetch_validate_and_store_definition env4 ''gdp'' w0)) ''gdp'' =
     Inr (Some \<lparr>answer_term = ''gdp'', answer_definition = gdp_summary,
                answer_follow_ups = four_follow_ups\<rparr>)
   \<and> length four_follow_ups = 4
   \<and> list_all follow_ups_capped (trace w0)
   \<and> \<not> list_all follow_ups_capped (trace (fetch_validate_and_store_definition env4 ''gdp'' w0))"
proof -
  have n: "lower (strip ''gdp'') = ''gdp''" by (simp add: strip_gdp lower_gdp)
  have l: "length four_follow_ups = 4" by (simp add: four_follow_ups_def)
  then have ne: "four_follow_ups \<noteq> []" by auto
  have v: "validate_definition env4 ''gdp'' gdp_summary =
             Inr (Some \<lparr>is_valid = True, reasoning = ''accurate''\<rparr>)"
    by (simp add: validate_definition_def env4_def gdp_summary_usable)
  have f: "follow_ups_to_save (generate_followups env4 ''gdp'' gdp_summary) =
             map (\<lambda>fu. Dict (model_dump fu)) four_follow_ups"
    using ne by (simp add: follow_ups_to_save_def generate_followups_def env4_def)
  have wk: "wikipedia env4 ''gdp'' = Inr gdp_summary"
    by (simp add: env4_def)
  have cm: "commit env4 ev = None" for ev
    by (simp add: env4_def)
  have run: "fetch_validate_and_store_definition env4 ''gdp'' w0 =
      \<lparr>terminus = terminus_save [] ''gdp'' gdp_summary (map (\<lambda>fu. Dict (model_dump fu)) four_follow_ups),
       candidate = [],
       trace = [WikipediaQuery ''gdp'', ValidateDefinition ''gdp'' gdp_summary,
                GenerateFollowups ''gdp'' gdp_summary,
                TerminusSave ''gdp'' gdp_summary (map (\<lambda>fu. Dict (model_dump fu)) four_follow_ups)]\<rparr>"
    using v f wk cm
    by (simp add: fetch_validate_and_store_definition_def Let_def n w0_def
        terminus_exists_def candidate_exists_def query_exists_def gdp_summary_usable
        do_terminus_save_def log_event_def)
  have s: "terminus_save [] ''gdp'' gdp_summary (map (\<lambda>fu. Dict (model_dump fu)) four_follow_ups) =
           terminus_save [] ''gdp'' gdp_summary (map Model four_follow_ups)"
    by (simp add: terminus_save_def serialize_dict_model_dump)
  have g: "terminus_get_as_pydantic
             (terminus_save [] ''gdp'' gdp_summary (map Model four_follow_ups)) ''gdp'' =
           Inr (Some \<lparr>answer_term = ''gdp'', answer_definition = gdp_summary,
                answer_follow_ups = four_follow_ups\<rparr>)"
    using terminus_get_as_pydantic_save [of "[]" "''gdp''" gdp_summary four_follow_ups]
    by (simp add: lower_gdp)
  show ?thesis
    unfolding run using g l by (simp add: s w0_def)
qed

end
